theory Spec2Isabelle
  imports Main "HOL-Library.Sublist"
begin

section \<open>The JavaScript built-ins the handlers rely on\<close>

text \<open>
  Strings are lists of characters, a character standing for the code unit of the same
  number. The built-ins are modelled on the ECMAScript definitions of
  \<^verbatim>\<open>String.prototype.trim\<close>, \<^verbatim>\<open>parseInt\<close>, \<^verbatim>\<open>toLowerCase\<close>,
  \<^verbatim>\<open>includes\<close> and \<^verbatim>\<open>JSON.parse\<close>.
\<close>

definition js_white_space :: "char \<Rightarrow> bool" where
  \<comment> \<open>WhiteSpace and LineTerminator code units below 256\<close>
  "js_white_space c =
     (c \<in> set [CHR 0x09, CHR 0x0A, CHR 0x0B, CHR 0x0C, CHR 0x0D, CHR 0x20, CHR 0xA0])"

definition trim :: "string \<Rightarrow> string" where
  "trim s = rev (dropWhile js_white_space (rev (dropWhile js_white_space s)))"

definition is_digit :: "char \<Rightarrow> bool" where
  "is_digit c = (c \<in> set ''0123456789'')"

definition is_hex_digit :: "char \<Rightarrow> bool" where
  "is_hex_digit c = (c \<in> set ''0123456789abcdefABCDEF'')"

definition digit_value :: "char \<Rightarrow> int" where
  "digit_value c =
     (let n = (of_char c :: nat) in
      if is_digit c then int n - 48
      else if c \<in> set ''abcdef'' then int n - 87
      else int n - 55)"

definition digits_value :: "int \<Rightarrow> string \<Rightarrow> int" where
  "digits_value radix z = foldl (\<lambda>acc c. acc * radix + digit_value c) 0 z"

type_synonym number = "int option"  \<comment> \<open>\<open>None\<close> is NaN\<close>

definition isNaN :: "number \<Rightarrow> bool" where
  "isNaN v = (v = None)"

text \<open>Comparisons with NaN are false.\<close>

definition num_le :: "number \<Rightarrow> int \<Rightarrow> bool" where
  "num_le v c = (case v of None \<Rightarrow> False | Some x \<Rightarrow> x \<le> c)"

definition num_lt :: "number \<Rightarrow> int \<Rightarrow> bool" where
  "num_lt v c = (case v of None \<Rightarrow> False | Some x \<Rightarrow> x < c)"

definition num_gt :: "number \<Rightarrow> int \<Rightarrow> bool" where
  "num_gt v c = (case v of None \<Rightarrow> False | Some x \<Rightarrow> x > c)"

text \<open>
  \<^verbatim>\<open>parseInt(s)\<close> with no radix: leading white space is skipped, one sign is read, a
  \<^verbatim>\<open>0x\<close> prefix selects radix 16, and the longest run of digits is the value; an empty run
  gives NaN, here \<open>None\<close>. The value is the mathematical integer: the rounding JavaScript
  applies beyond \<open>2^53\<close> is monotone and keeps the sign, so comparisons with small
  constants are not affected.
\<close>

definition parseInt :: "string \<Rightarrow> number" where
  "parseInt str =
     (let s = dropWhile js_white_space str;
          neg = (case s of [] \<Rightarrow> False | c # r \<Rightarrow> c = CHR ''-'');
          s1 = (case s of [] \<Rightarrow> [] | c # r \<Rightarrow> if c = CHR ''-'' \<or> c = CHR ''+'' then r else s);
          hex = (take 2 s1 = ''0x'' \<or> take 2 s1 = ''0X'');
          s2 = (if hex then drop 2 s1 else s1);
          z = takeWhile (if hex then is_hex_digit else is_digit) s2
      in if z = [] then None
         else Some ((if neg then - 1 else 1) * digits_value (if hex then 16 else 10) z))"

definition toLowerCase :: "string \<Rightarrow> string" where
  \<comment> \<open>the letters A to Z are mapped to a to z, every other character is kept\<close>
  "toLowerCase s =
     map (\<lambda>c. let n = (of_char c :: nat) in
               if 65 \<le> n \<and> n \<le> 90 then char_of (n + 32) else c) s"

fun includes_str :: "string \<Rightarrow> string \<Rightarrow> bool" where
  "includes_str [] sub = (sub = [])"
| "includes_str (c # cs) sub = (prefix sub (c # cs) \<or> includes_str cs sub)"

subsection \<open>JSON.parse\<close>

text \<open>
  The parsed value is kept as a syntax tree: a number and a string as the text of their
  literal, an object as the list of its members in source order. The grammar is that of
  ECMA-404; \<open>None\<close> stands for the SyntaxError that \<^verbatim>\<open>JSON.parse\<close> throws.
\<close>

datatype json =
    JNull
  | JBool bool
  | JNumber string
  | JString string
  | JArray "json list"
  | JObject "(string \<times> json) list"

definition json_ws :: "char \<Rightarrow> bool" where
  "json_ws c = (c \<in> set [CHR 0x20, CHR 0x09, CHR 0x0A, CHR 0x0D])"

definition skip_ws :: "string \<Rightarrow> string" where
  "skip_ws cs = dropWhile json_ws cs"

definition opt_minus :: "string \<Rightarrow> string" where
  "opt_minus cs = (case cs of [] \<Rightarrow> [] | c # r \<Rightarrow> if c = CHR ''-'' then r else cs)"

definition int_part :: "string \<Rightarrow> string option" where
  "int_part cs =
     (case takeWhile is_digit cs of [] \<Rightarrow> None
      | d # ds \<Rightarrow>
          if d = CHR ''0'' \<and> ds \<noteq> [] then None  \<comment> \<open>no digit may follow a leading zero\<close>
          else Some (dropWhile is_digit cs))"

definition frac_part :: "string \<Rightarrow> string option" where
  "frac_part cs =
     (case cs of [] \<Rightarrow> Some []
      | c # r \<Rightarrow>
          if c = CHR ''.'' then
            (if takeWhile is_digit r = [] then None else Some (dropWhile is_digit r))
          else Some cs)"

definition opt_sign :: "string \<Rightarrow> string" where
  "opt_sign cs =
     (case cs of [] \<Rightarrow> [] | c # r \<Rightarrow> if c = CHR ''+'' \<or> c = CHR ''-'' then r else cs)"

definition exp_part :: "string \<Rightarrow> string option" where
  "exp_part cs =
     (case cs of [] \<Rightarrow> Some []
      | c # r \<Rightarrow>
          if c = CHR ''e'' \<or> c = CHR ''E'' then
            (if takeWhile is_digit (opt_sign r) = [] then None
             else Some (dropWhile is_digit (opt_sign r)))
          else Some cs)"

definition scan_number :: "string \<Rightarrow> (string \<times> string) option" where
  \<comment> \<open>the number literal at the head of the text, and the text after it\<close>
  "scan_number cs =
     (case int_part (opt_minus cs) of None \<Rightarrow> None
      | Some r1 \<Rightarrow>
     (case frac_part r1 of None \<Rightarrow> None
      | Some r2 \<Rightarrow>
     (case exp_part r2 of None \<Rightarrow> None
      | Some r3 \<Rightarrow> Some (take (length cs - length r3) cs, r3))))"

fun scan_string :: "string \<Rightarrow> (string \<times> string) option" where
  \<comment> \<open>the text after an opening quote: the raw contents up to the closing quote, and the rest\<close>
  "scan_string [] = None"
| "scan_string (c # cs) =
     (if c = CHR 0x22 then Some ([], cs)
      else if c = CHR 0x5C then
        (case cs of [] \<Rightarrow> None
         | e # r \<Rightarrow>
             if e \<in> set [CHR 0x22, CHR 0x5C, CHR ''/'', CHR ''b'', CHR ''f'', CHR ''n'', CHR ''r'', CHR ''t'']
             then map_option (apfst (\<lambda>s. c # e # s)) (scan_string r)
             else if e = CHR ''u'' \<and> 4 \<le> length r \<and> list_all is_hex_digit (take 4 r)
             then map_option (apfst (\<lambda>s. c # e # take 4 r @ s)) (scan_string (drop 4 r))
             else None)
      else if (of_char c :: nat) < 32 then None
      else map_option (apfst (\<lambda>s. c # s)) (scan_string cs))"

definition parse_scalar :: "string \<Rightarrow> (json \<times> string) option" where
  \<comment> \<open>a string, a number or one of the three literal names at the head of the text\<close>
  "parse_scalar s =
     (case s of [] \<Rightarrow> None
      | c # r \<Rightarrow>
          if c = CHR 0x22 then map_option (apfst JString) (scan_string r)
          else if c = CHR ''-'' \<or> is_digit c then map_option (apfst JNumber) (scan_number s)
          else if prefix ''true'' s then Some (JBool True, drop 4 s)
          else if prefix ''false'' s then Some (JBool False, drop 5 s)
          else if prefix ''null'' s then Some (JNull, drop 4 s)
          else None)"

fun parse_value :: "nat \<Rightarrow> string \<Rightarrow> (json \<times> string) option"
  and parse_elements :: "nat \<Rightarrow> string \<Rightarrow> (json list \<times> string) option"
  and parse_members :: "nat \<Rightarrow> string \<Rightarrow> ((string \<times> json) list \<times> string) option"
where
  "parse_value 0 cs = None"
| "parse_value (Suc n) cs =
     (case skip_ws cs of [] \<Rightarrow> None
      | c # r \<Rightarrow>
          if c = CHR ''['' then
            (case skip_ws r of [] \<Rightarrow> None
             | d # r' \<Rightarrow>
                 if d = CHR '']'' then Some (JArray [], r')
                 else map_option (apfst JArray) (parse_elements n r))
          else if c = CHR ''{'' then
            (case skip_ws r of [] \<Rightarrow> None
             | d # r' \<Rightarrow>
                 if d = CHR ''}'' then Some (JObject [], r')
                 else map_option (apfst JObject) (parse_members n r))
          else parse_scalar (c # r))"
| "parse_elements 0 cs = None"
| "parse_elements (Suc n) cs =
     (case parse_value n cs of None \<Rightarrow> None
      | Some (v, r) \<Rightarrow>
          (case skip_ws r of [] \<Rightarrow> None
           | c # r' \<Rightarrow>
               if c = CHR '','' then
                 (case parse_elements n r' of None \<Rightarrow> None
                  | Some (vs, r'') \<Rightarrow> Some (v # vs, r''))
               else if c = CHR '']'' then Some ([v], r')
               else None))"
| "parse_members 0 cs = None"
| "parse_members (Suc n) cs =
     (case skip_ws cs of [] \<Rightarrow> None
      | q # r \<Rightarrow>
          if q \<noteq> CHR 0x22 then None
          else
            (case scan_string r of None \<Rightarrow> None
             | Some (key, r1) \<Rightarrow>
                 (case skip_ws r1 of [] \<Rightarrow> None
                  | c1 # r2 \<Rightarrow>
                      if c1 \<noteq> CHR '':'' then None
                      else
                        (case parse_value n r2 of None \<Rightarrow> None
                         | Some (v, r3) \<Rightarrow>
                             (case skip_ws r3 of [] \<Rightarrow> None
                              | c3 # r4 \<Rightarrow>
                                  if c3 = CHR '','' then
                                    (case parse_members n r4 of None \<Rightarrow> None
                                     | Some (ms, r5) \<Rightarrow> Some ((key, v) # ms, r5))
                                  else if c3 = CHR ''}'' then Some ([(key, v)], r4)
                                  else None)))))"

text \<open>
  Every two levels of recursion consume a character, so twice the length of the text is
  fuel enough (lemma \<open>fuel_enough\<close> below); the text must be exhausted, up to white space,
  after the value.
\<close>

definition JSON_parse :: "string \<Rightarrow> json option" where
  "JSON_parse s =
     (case parse_value (2 * length s + 2) s of None \<Rightarrow> None
      | Some (v, r) \<Rightarrow> if skip_ws r = [] then Some v else None)"


section \<open>Messages\<close>

text \<open>
  What a handler shows is either a text of this program or of the backend, or the message
  of a SyntaxError, whose wording belongs to the JavaScript engine and is kept here as the
  text that failed to parse, or one of these after a fixed prefix.
\<close>

datatype message =
    Text string  \<comment> \<open>a message whose wording is fixed by this program or sent by the backend\<close>
  | JsonSyntaxError string  \<comment> \<open>the engine's message for the SyntaxError of \<^verbatim>\<open>JSON.parse\<close> on this text\<close>
  | Prefixed string message  \<comment> \<open>a template string: a fixed prefix, then \<^verbatim>\<open>err.message\<close>\<close>

fun message_text :: "(string \<Rightarrow> string) \<Rightarrow> message \<Rightarrow> string" where
  \<comment> \<open>the string shown, for an engine that words the SyntaxError of a text as \<open>engine\<close> says\<close>
  "message_text engine (Text s) = s"
| "message_text engine (JsonSyntaxError src) = engine src"
| "message_text engine (Prefixed p m) = p @ message_text engine m"

text \<open>
  \<^verbatim>\<open>JSON.parse(`[${s}]`)\<close>, the way the forms read a comma-separated list: the elements of
  the array, or the SyntaxError. A text that opens with a bracket parses to nothing but an
  array (lemma \<open>JSON_parse_bracketed\<close> below), so the last case is never taken.
\<close>

definition bracketed :: "string \<Rightarrow> message + json list" where
  "bracketed s =
     (case JSON_parse (''['' @ s @ '']'') of
        None \<Rightarrow> Inl (JsonSyntaxError (''['' @ s @ '']''))
      | Some (JArray xs) \<Rightarrow> Inr xs
      | Some _ \<Rightarrow> Inl (JsonSyntaxError (''['' @ s @ '']'')))"

section \<open>The adapter's response envelope\<close>

record 'a api_response =
  success :: bool
  data :: "'a option"
  error :: "string option"

definition error_or :: "'a api_response \<Rightarrow> string \<Rightarrow> string" where
  \<comment> \<open>\<^verbatim>\<open>response.error || fallback\<close>: an absent or empty error gives the fallback\<close>
  "error_or r fallback =
     (case error r of None \<Rightarrow> fallback | Some e \<Rightarrow> if e = [] then fallback else e)"

section \<open>Search page\<close>

record search_form =
  s_vector :: string
  s_sparseIndices :: string
  s_sparseValues :: string
  s_k :: string
  s_ef :: string
  s_filter :: string
  s_includeVectors :: bool

record search_request =
  rq_vector :: "json list"
  rq_k :: number
  rq_ef :: "number option"
  rq_filter :: "string option"
  rq_include_vectors :: bool
  rq_sparse_indices :: "json list option"
  rq_sparse_values :: "json list option"

definition dense_vector :: "string \<Rightarrow> message + json list" where
  \<comment> \<open>lines 58-61 of handleSearch, and the same three lines of parseVector\<close>
  "dense_vector vector =
     (case bracketed vector of Inl e \<Rightarrow> Inl e
      | Inr vectorArray \<Rightarrow>
          if vectorArray = [] then Inl (Text ''Vector must be a non-empty array of numbers'')
          else Inr vectorArray)"

definition k_value :: "string \<Rightarrow> message + number" where
  "k_value k =
     (let kValue = parseInt k in
      if isNaN kValue \<or> num_le kValue 0 then Inl (Text ''K must be a positive number'')
      else Inr kValue)"

definition ef_value :: "string \<Rightarrow> number option" where
  \<comment> \<open>the ef field of the request, \<open>None\<close> when the request has none\<close>
  "ef_value ef =
     (if trim ef \<noteq> [] then
        (let efValue = parseInt ef in
         if \<not> isNaN efValue \<and> num_gt efValue 0 then Some efValue else None)
      else None)"

definition filter_value :: "string \<Rightarrow> message + string option" where
  "filter_value flt =
     (if trim flt \<noteq> [] then
        (case JSON_parse flt of None \<Rightarrow> Inl (Text ''Filter must be valid JSON'')
         | Some _ \<Rightarrow> Inr (Some (trim flt)))
      else Inr None)"

definition sparse_field :: "string \<Rightarrow> message + json list option" where
  "sparse_field s =
     (if trim s \<noteq> [] then
        (case bracketed s of Inl e \<Rightarrow> Inl e | Inr xs \<Rightarrow> Inr (Some xs))
      else Inr None)"

definition sparse_check ::
  "json list option \<Rightarrow> json list option \<Rightarrow> message option" where
  \<comment> \<open>an array is truthy even when empty, so the conjunction tests presence\<close>
  "sparse_check si sv =
     (case (si, sv) of
        (Some indices, Some vals) \<Rightarrow>
          if length indices = length vals then None
          else Some (Text ''Sparse indices and values must have the same length'')
      | (None, None) \<Rightarrow> None
      | _ \<Rightarrow> Some (Text ''Both sparse indices and sparse values must be provided together''))"

definition sparse_fields ::
  "bool \<Rightarrow> string \<Rightarrow> string \<Rightarrow> message + (json list option \<times> json list option)" where
  "sparse_fields isHybrid sparseIndices sparseValues =
     (if isHybrid then
        (case sparse_field sparseIndices of Inl e \<Rightarrow> Inl e
         | Inr si \<Rightarrow>
        (case sparse_field sparseValues of Inl e \<Rightarrow> Inl e
         | Inr sv \<Rightarrow>
        (case sparse_check si sv of Some e \<Rightarrow> Inl e | None \<Rightarrow> Inr (si, sv))))
      else Inr (None, None))"

definition searchRequest :: "bool \<Rightarrow> search_form \<Rightarrow> message + search_request" where
  \<comment> \<open>the body of the try block of handleSearch up to the call of the adapter\<close>
  "searchRequest isHybrid f =
     (case dense_vector (s_vector f) of Inl e \<Rightarrow> Inl e
      | Inr vectorArray \<Rightarrow>
     (case k_value (s_k f) of Inl e \<Rightarrow> Inl e
      | Inr kValue \<Rightarrow>
     (case filter_value (s_filter f) of Inl e \<Rightarrow> Inl e
      | Inr flt \<Rightarrow>
     (case sparse_fields isHybrid (s_sparseIndices f) (s_sparseValues f) of Inl e \<Rightarrow> Inl e
      | Inr (si, sv) \<Rightarrow>
          Inr \<lparr>rq_vector = vectorArray, rq_k = kValue, rq_ef = ef_value (s_ef f),
               rq_filter = flt, rq_include_vectors = s_includeVectors f,
               rq_sparse_indices = si, rq_sparse_values = sv\<rparr>))))"

record 'r search_outcome =
  search_calls :: "(string \<times> search_request) list"  \<comment> \<open>the calls of api.searchVectors\<close>
  search_error :: "message option"
  search_results :: "'r list option"

definition handleSearch ::
  "(string \<Rightarrow> search_request \<Rightarrow> 'r list api_response) \<Rightarrow> string \<Rightarrow> bool \<Rightarrow> search_form
     \<Rightarrow> 'r search_outcome" where
  "handleSearch searchVectors indexName isHybrid f =
     (if indexName = [] then
        \<lparr>search_calls = [], search_error = None, search_results = None\<rparr>
      else
        (case searchRequest isHybrid f of
           Inl e \<Rightarrow> \<lparr>search_calls = [], search_error = Some e, search_results = None\<rparr>
         | Inr request \<Rightarrow>
             (let response = searchVectors indexName request in
              if \<not> success response then
                \<lparr>search_calls = [(indexName, request)],
                 search_error = Some (Text (error_or response ''Search failed'')),
                 search_results = None\<rparr>
              else
                \<lparr>search_calls = [(indexName, request)], search_error = None,
                 search_results = Some (case data response of None \<Rightarrow> [] | Some rs \<Rightarrow> rs)\<rparr>)))"


section \<open>Vector insert page\<close>

record vector_input =
  in_id :: string
  in_vector :: string
  in_sparse_indices :: string
  in_sparse_values :: string
  in_meta :: string
  in_filter :: string

record vector_item =
  item_id :: string
  item_vector :: "json list"
  item_sparseIndices :: "json list option"
  item_sparseValues :: "json list option"
  item_meta :: "json option"
  item_filter :: "json option"

definition json_field :: "string \<Rightarrow> message + json option" where
  \<comment> \<open>\<^verbatim>\<open>if (text.trim()) { result.field = JSON.parse(text) }\<close>\<close>
  "json_field s =
     (if trim s \<noteq> [] then
        (case JSON_parse s of None \<Rightarrow> Inl (JsonSyntaxError s) | Some v \<Rightarrow> Inr (Some v))
      else Inr None)"

definition parseVector_try :: "bool \<Rightarrow> vector_input \<Rightarrow> message + vector_item" where
  \<comment> \<open>the try block of parseVector\<close>
  "parseVector_try isHybrid input =
     (if trim (in_id input) = [] then Inl (Text ''Vector ID is required'')
      else
     (case dense_vector (in_vector input) of Inl e \<Rightarrow> Inl e
      | Inr vectorArray \<Rightarrow>
     (case sparse_fields isHybrid (in_sparse_indices input) (in_sparse_values input) of
        Inl e \<Rightarrow> Inl e
      | Inr (si, sv) \<Rightarrow>
     (case json_field (in_meta input) of Inl e \<Rightarrow> Inl e
      | Inr m \<Rightarrow>
     (case json_field (in_filter input) of Inl e \<Rightarrow> Inl e
      | Inr flt \<Rightarrow>
          Inr \<lparr>item_id = trim (in_id input), item_vector = vectorArray,
               item_sparseIndices = si, item_sparseValues = sv,
               item_meta = m, item_filter = flt\<rparr>)))))"

definition parseVector :: "bool \<Rightarrow> vector_input \<Rightarrow> message + vector_item" where
  \<comment> \<open>the catch block rethrows every failure under one prefix\<close>
  "parseVector isHybrid input =
     (case parseVector_try isHybrid input of
        Inl e \<Rightarrow> Inl (Prefixed ''Invalid vector data: '' e)
      | Inr result \<Rightarrow> Inr result)"

definition parses :: "bool \<Rightarrow> vector_input \<Rightarrow> bool" where
  \<comment> \<open>parseVector returns for the row\<close>
  "parses isHybrid v = (case parseVector isHybrid v of Inl e \<Rightarrow> False | Inr item \<Rightarrow> True)"

fun parse_loop :: "bool \<Rightarrow> vector_input list \<Rightarrow> message + vector_item list" where
  \<comment> \<open>the for loop of handleSubmit: the first throw leaves the loop\<close>
  "parse_loop isHybrid [] = Inr []"
| "parse_loop isHybrid (v # vs) =
     (case parseVector isHybrid v of Inl e \<Rightarrow> Inl e
      | Inr parsed \<Rightarrow>
          (case parse_loop isHybrid vs of Inl e \<Rightarrow> Inl e
           | Inr rest \<Rightarrow> Inr (parsed # rest)))"

definition is_placeholder :: "vector_input \<Rightarrow> bool" where
  "is_placeholder v = (trim (in_id v) = [] \<and> trim (in_vector v) = [])"

definition parsedVectors :: "bool \<Rightarrow> vector_input list \<Rightarrow> message + vector_item list" where
  \<comment> \<open>the try block of handleSubmit up to the call of the adapter\<close>
  "parsedVectors isHybrid vectors =
     (let nonEmptyVectors = filter (\<lambda>v. \<not> is_placeholder v) vectors in
      if nonEmptyVectors = [] then Inl (Text ''At least one vector is required'')
      else
        (case parse_loop isHybrid nonEmptyVectors of Inl e \<Rightarrow> Inl e
         | Inr parsed \<Rightarrow>
             if parsed = [] then Inl (Text ''At least one valid vector is required'')
             else Inr parsed))"

fun show_nat :: "nat \<Rightarrow> string" where
  \<comment> \<open>a length interpolated into a template string\<close>
  "show_nat n =
     (if n < 10 then [char_of (48 + n)]
      else show_nat (n div 10) @ [char_of (48 + n mod 10)])"

declare show_nat.simps [simp del]

record insert_data =
  ins_success :: bool
  inserted :: nat

record insert_outcome =
  insert_calls :: "(string \<times> vector_item list) list"  \<comment> \<open>the calls of api.insertVectors\<close>
  insert_error :: "message option"
  insert_success :: "message option"

definition empty_row :: vector_input where
  "empty_row = \<lparr>in_id = [], in_vector = [], in_sparse_indices = [], in_sparse_values = [],
                 in_meta = [], in_filter = []\<rparr>"

definition handleSubmit ::
  "(string \<Rightarrow> vector_item list \<Rightarrow> insert_data api_response) \<Rightarrow> string \<Rightarrow> bool
     \<Rightarrow> vector_input list \<Rightarrow> insert_outcome \<times> vector_input list" where
  \<comment> \<open>the outcome, and the rows of the form afterwards\<close>
  "handleSubmit insertVectors indexName isHybrid vectors =
     (if indexName = [] then
        (\<lparr>insert_calls = [], insert_error = None, insert_success = None\<rparr>, vectors)
      else
        (case parsedVectors isHybrid vectors of
           Inl e \<Rightarrow>
             (\<lparr>insert_calls = [], insert_error = Some e, insert_success = None\<rparr>, vectors)
         | Inr parsed \<Rightarrow>
             (let response = insertVectors indexName parsed in
              if \<not> success response then
                (\<lparr>insert_calls = [(indexName, parsed)],
                  insert_error = Some (Text (error_or response ''Failed to insert vectors'')),
                  insert_success = None\<rparr>, vectors)
              else
                (\<lparr>insert_calls = [(indexName, parsed)], insert_error = None,
                  insert_success =
                    Some (Text (''Successfully inserted '' @ show_nat (length parsed)
                                @ '' vector(s)''))\<rparr>,
                 [empty_row]))))"

section \<open>Create index page\<close>

record create_form =
  c_name :: string
  c_spaceType :: string
  c_dimension :: string
  c_precision :: string
  c_isHybrid :: bool
  c_sparseDimension :: string
  c_showAdvanced :: bool
  c_mParam :: string
  c_efConstruction :: string

record create_options =
  o_precision :: string
  o_sparse_dim :: "number option"  \<comment> \<open>\<open>None\<close> is undefined\<close>
  o_M :: "number option"
  o_ef_con :: "number option"

record create_call =
  cc_indexName :: string
  cc_dimension :: number
  cc_spaceType :: string
  cc_options :: create_options

definition not_positive :: "string \<Rightarrow> bool" where
  \<comment> \<open>\<^verbatim>\<open>!text || isNaN(value) || value <= 0\<close>, the value being \<^verbatim>\<open>parseInt(text)\<close>\<close>
  "not_positive s = (s = [] \<or> isNaN (parseInt s) \<or> num_le (parseInt s) 0)"

definition outside :: "int \<Rightarrow> int \<Rightarrow> number \<Rightarrow> bool" where
  \<comment> \<open>\<^verbatim>\<open>isNaN(value) || value < lo || value > hi\<close>\<close>
  "outside lo hi v = (isNaN v \<or> num_lt v lo \<or> num_gt v hi)"

definition createCall :: "create_form \<Rightarrow> message + create_call" where
  \<comment> \<open>the validation of handleSubmit: the message set, or the arguments of api.createIndex\<close>
  "createCall f =
     (if trim (c_name f) = [] then Inl (Text ''Index name is required'')
      else
     (let dimValue = parseInt (c_dimension f) in
      if not_positive (c_dimension f) then Inl (Text ''Dimension must be a positive number'')
      else
     (let sparseDimValue = (if c_isHybrid f then Some (parseInt (c_sparseDimension f)) else None) in
      if c_isHybrid f \<and> not_positive (c_sparseDimension f)
      then Inl (Text ''Sparse dimension must be a positive number for hybrid indexes'')
      else
     (let mValue = parseInt (c_mParam f); efValue = parseInt (c_efConstruction f) in
      if c_showAdvanced f \<and> outside 4 64 mValue
      then Inl (Text ''M parameter must be between 4 and 64'')
      else if c_showAdvanced f \<and> outside 64 512 efValue
      then Inl (Text ''ef_construction must be between 64 and 512'')
      else
        Inr \<lparr>cc_indexName = trim (c_name f), cc_dimension = dimValue,
             cc_spaceType = c_spaceType f,
             cc_options =
               \<lparr>o_precision = c_precision f,
                o_sparse_dim = sparseDimValue,
                o_M = (if c_showAdvanced f then Some mValue else None),
                o_ef_con = (if c_showAdvanced f then Some efValue else None)\<rparr>\<rparr>))))"

record create_outcome =
  create_calls :: "create_call list"  \<comment> \<open>the calls of api.createIndex\<close>
  create_error :: "message option"
  navigated :: bool  \<comment> \<open>to the list of indexes\<close>

definition create_handleSubmit ::
  "(create_call \<Rightarrow> unit api_response) \<Rightarrow> create_form \<Rightarrow> create_outcome" where
  "create_handleSubmit createIndex f =
     (case createCall f of
        Inl e \<Rightarrow> \<lparr>create_calls = [], create_error = Some e, navigated = False\<rparr>
      | Inr call \<Rightarrow>
          (let response = createIndex call in
           if \<not> success response then
             \<lparr>create_calls = [call],
              create_error = Some (Text (error_or response ''Failed to create index'')),
              navigated = False\<rparr>
           else \<lparr>create_calls = [call], create_error = None, navigated = True\<rparr>))"


section \<open>Authentication state\<close>

record auth_state =
  token :: "string option"
  showAuthModal :: bool

definition handleUnauthorized :: "auth_state \<Rightarrow> auth_state" where
  "handleUnauthorized a = a\<lparr>token := None, showAuthModal := True\<rparr>"

definition truthy :: "string option \<Rightarrow> bool" where
  \<comment> \<open>a token that is neither null nor the empty string\<close>
  "truthy t = (case t of None \<Rightarrow> False | Some s \<Rightarrow> s \<noteq> [])"

definition stored_token :: "auth_state \<Rightarrow> string option" where
  \<comment> \<open>the entry of localStorage once the effect on the token has run\<close>
  "stored_token a = (if truthy (token a) then token a else None)"

section \<open>API client adapter\<close>

datatype thrown = Error string | NonError

definition isUnauthorizedError :: "thrown \<Rightarrow> bool" where
  "isUnauthorizedError e =
     (case e of
        Error m \<Rightarrow>
          (let message = toLowerCase m in
           includes_str message ''401'' \<or> includes_str message ''invalid token'')
      | NonError \<Rightarrow> False)"

definition handleApiError ::
  "(auth_state \<Rightarrow> auth_state) option \<Rightarrow> thrown \<Rightarrow> auth_state \<Rightarrow> 'a api_response \<times> auth_state" where
  \<comment> \<open>\<open>onUnauthorized\<close> is the registered callback, \<open>None\<close> when there is none\<close>
  "handleApiError onUnauthorized e a =
     (\<lparr>success = False, data = None,
       error = Some (case e of Error m \<Rightarrow> m | NonError \<Rightarrow> ''Unknown error'')\<rparr>,
      (if isUnauthorizedError e
       then (case onUnauthorized of None \<Rightarrow> a | Some callback \<Rightarrow> callback a)
       else a))"

datatype 'v client_call = GetIndex string | Upsert string "'v list"

record ('v, 'u) endee =
  getIndex :: "string \<Rightarrow> thrown option"  \<comment> \<open>the error getIndex throws, if it throws\<close>
  upsert :: "string \<Rightarrow> 'v list \<Rightarrow> thrown + 'u"  \<comment> \<open>the error thrown, or the client's result\<close>

definition insertVectors ::
  "('v, 'u) endee \<Rightarrow> (auth_state \<Rightarrow> auth_state) option \<Rightarrow> string \<Rightarrow> 'v list \<Rightarrow> auth_state
     \<Rightarrow> insert_data api_response \<times> auth_state \<times> 'v client_call list" where
  \<comment> \<open>the response, the authentication state, and the calls made on the client, in order\<close>
  "insertVectors client onUnauthorized indexName vectors a =
     (case getIndex client indexName of
        Some e \<Rightarrow>
          (let (r, a') = handleApiError onUnauthorized e a in (r, a', [GetIndex indexName]))
      | None \<Rightarrow>
          (case upsert client indexName vectors of
             Inl e \<Rightarrow>
               (let (r, a') = handleApiError onUnauthorized e a
                in (r, a', [GetIndex indexName, Upsert indexName vectors]))
           | Inr result \<Rightarrow>
               (\<lparr>success = True,
                 data = Some \<lparr>ins_success = True, inserted = length vectors\<rparr>,
                 error = None\<rparr>,
                a, [GetIndex indexName, Upsert indexName vectors])))"

section \<open>Raw fetch call sites\<close>

datatype endpoint =
    BackupsJobs  \<comment> \<open>GET /api/v1/backups/jobs\<close>
  | Backups  \<comment> \<open>GET /api/v1/backups\<close>
  | Restore string  \<comment> \<open>POST /api/v1/backups/:name/restore\<close>
  | DeleteBackup string  \<comment> \<open>DELETE /api/v1/backups/:name\<close>
  | CreateBackup string  \<comment> \<open>POST /api/v1/index/:name/backup\<close>
  | Upload  \<comment> \<open>POST /api/v1/backups/upload\<close>

record request =
  r_endpoint :: endpoint
  r_headers :: "(string \<times> string) list"
  r_body :: "(string \<times> string) list"  \<comment> \<open>the fields of the body\<close>

record response =
  status :: nat
  body_error :: "string option"  \<comment> \<open>the error field of the body, when the body is JSON with one\<close>

definition ok :: "response \<Rightarrow> bool" where
  "ok r = (200 \<le> status r \<and> status r \<le> 299)"

definition authorization :: "string option \<Rightarrow> (string \<times> string) list" where
  \<comment> \<open>\<^verbatim>\<open>...(token && { Authorization: token })\<close>\<close>
  "authorization t = (case t of None \<Rightarrow> [] | Some s \<Rightarrow> if s = [] then [] else [(''Authorization'', s)])"

definition json_content :: "(string \<times> string) list" where
  "json_content = [(''Content-Type'', ''application/json'')]"

definition body_error_or :: "response \<Rightarrow> string \<Rightarrow> string" where
  \<comment> \<open>\<^verbatim>\<open>errorData.error || fallback\<close>\<close>
  "body_error_or r fallback =
     (case body_error r of None \<Rightarrow> fallback | Some e \<Rightarrow> if e = [] then fallback else e)"

record fetch_outcome =
  requests :: "request list"  \<comment> \<open>the requests sent\<close>
  auth :: auth_state  \<comment> \<open>the authentication state afterwards\<close>
  shown :: "message option"  \<comment> \<open>the error shown\<close>

definition loadJobs :: "(request \<Rightarrow> response) \<Rightarrow> auth_state \<Rightarrow> fetch_outcome" where
  "loadJobs fetch a =
     (let rq = \<lparr>r_endpoint = BackupsJobs, r_headers = json_content @ authorization (token a),
                r_body = []\<rparr>;
          response = fetch rq in
      if \<not> ok response then
        \<lparr>requests = [rq],
         auth = (if status response = 401 then handleUnauthorized a else a),
         shown = None\<rparr>
      else \<lparr>requests = [rq], auth = a, shown = None\<rparr>)"

definition loadBackups :: "(request \<Rightarrow> response) \<Rightarrow> auth_state \<Rightarrow> fetch_outcome" where
  "loadBackups fetch a =
     (let rq = \<lparr>r_endpoint = Backups, r_headers = json_content @ authorization (token a),
                r_body = []\<rparr>;
          response = fetch rq in
      if \<not> ok response then
        (if status response = 401 then
           \<lparr>requests = [rq], auth = handleUnauthorized a,
            shown = Some (Text ''Authentication Token Required.'')\<rparr>
         else \<lparr>requests = [rq], auth = a, shown = Some (Text ''Failed to fetch backups.'')\<rparr>)
      else \<lparr>requests = [rq], auth = a, shown = None\<rparr>)"

definition handleRestoreBackup ::
  "(request \<Rightarrow> response) \<Rightarrow> auth_state \<Rightarrow> string \<Rightarrow> string \<Rightarrow> fetch_outcome" where
  "handleRestoreBackup fetch a restoreBackupName restoreTargetIndex =
     (if restoreBackupName = [] \<or> trim restoreTargetIndex = [] then
        \<lparr>requests = [], auth = a, shown = None\<rparr>
      else
        (let rq = \<lparr>r_endpoint = Restore restoreBackupName,
                   r_headers = json_content @ authorization (token a),
                   r_body = [(''target_index_name'', trim restoreTargetIndex)]\<rparr>;
             response = fetch rq in
         if \<not> ok response then
           (if status response = 401 then
              \<lparr>requests = [rq], auth = handleUnauthorized a,
               shown = Some (Text ''Authentication Token Required.'')\<rparr>
            else \<lparr>requests = [rq], auth = a,
                  shown = Some (Text (body_error_or response ''Failed to restore backup''))\<rparr>)
         else \<lparr>requests = [rq], auth = a, shown = None\<rparr>))"

definition handleDeleteBackup ::
  "(request \<Rightarrow> response) \<Rightarrow> auth_state \<Rightarrow> string \<Rightarrow> fetch_outcome" where
  "handleDeleteBackup fetch a deleteBackupName =
     (if deleteBackupName = [] then \<lparr>requests = [], auth = a, shown = None\<rparr>
      else
        (let rq = \<lparr>r_endpoint = DeleteBackup deleteBackupName,
                   r_headers = authorization (token a), r_body = []\<rparr>;
             response = fetch rq in
         if \<not> ok response then
           (if status response = 401 then
              \<lparr>requests = [rq], auth = handleUnauthorized a,
               shown = Some (Text ''Authentication Token Required.'')\<rparr>
            else \<lparr>requests = [rq], auth = a,
                  shown = Some (Text (body_error_or response ''Failed to delete backup''))\<rparr>)
         else \<lparr>requests = [rq], auth = a, shown = None\<rparr>))"

definition modal_handleCreateBackup ::
  "(request \<Rightarrow> response) \<Rightarrow> auth_state \<Rightarrow> string \<Rightarrow> string \<Rightarrow> fetch_outcome" where
  \<comment> \<open>handleCreateBackup of the CreateBackupModal component\<close>
  "modal_handleCreateBackup fetch a backupIndexName backupName =
     (if backupIndexName = [] \<or> trim backupName = [] then
        \<lparr>requests = [], auth = a, shown = None\<rparr>
      else
        (let rq = \<lparr>r_endpoint = CreateBackup backupIndexName,
                   r_headers = json_content @ authorization (token a),
                   r_body = [(''name'', trim backupName)]\<rparr>;
             response = fetch rq in
         if \<not> ok response then
           (if status response = 401 then
              \<lparr>requests = [rq], auth = handleUnauthorized a,
               shown = Some (Text ''Authentication Token Required.'')\<rparr>
            else \<lparr>requests = [rq], auth = a,
                  shown = Some (Text (body_error_or response ''Failed to create backup''))\<rparr>)
         else \<lparr>requests = [rq], auth = a, shown = None\<rparr>))"

definition handleUploadBackup ::
  "(request \<Rightarrow> response) \<Rightarrow> auth_state \<Rightarrow> string option \<Rightarrow> fetch_outcome" where
  "handleUploadBackup fetch a selectedFile =
     (case selectedFile of
        None \<Rightarrow> \<lparr>requests = [], auth = a, shown = None\<rparr>
      | Some file \<Rightarrow>
        (let rq = \<lparr>r_endpoint = Upload, r_headers = authorization (token a),
                   r_body = [(''backup'', file)]\<rparr>;
             response = fetch rq in
         if \<not> ok response then
           (if status response = 401 then
              \<lparr>requests = [rq], auth = handleUnauthorized a,
               shown = Some (Text ''Authentication Token Required.'')\<rparr>
            else \<lparr>requests = [rq], auth = a,
                  shown = Some (Text (body_error_or response ''Failed to upload backup''))\<rparr>)
         else \<lparr>requests = [rq], auth = a, shown = None\<rparr>))"

definition handleCreateBackup ::
  "(request \<Rightarrow> response) \<Rightarrow> auth_state \<Rightarrow> string \<Rightarrow> string \<Rightarrow> fetch_outcome" where
  \<comment> \<open>handleCreateBackup of the indexes page: the headers are the content type alone, and
      every response that is not ok is handled the same way\<close>
  "handleCreateBackup fetch a backupIndexName backupName =
     (if backupIndexName = [] \<or> trim backupName = [] then
        \<lparr>requests = [], auth = a, shown = None\<rparr>
      else
        (let rq = \<lparr>r_endpoint = CreateBackup backupIndexName, r_headers = json_content,
                   r_body = [(''name'', trim backupName)]\<rparr>;
             response = fetch rq in
         if \<not> ok response then
           \<lparr>requests = [rq], auth = a,
            shown = Some (Text (body_error_or response ''Failed to create backup''))\<rparr>
         else \<lparr>requests = [rq], auth = a, shown = None\<rparr>))"

section \<open>Polling of backup jobs\<close>

datatype job_state = in_progress | completed | failed

record backup_job =
  job_id :: string
  index_id :: string
  backup_name :: string
  job_status :: job_state
  started_at :: int

definition hasInProgress :: "backup_job list \<Rightarrow> bool" where
  "hasInProgress jobs = list_ex (\<lambda>j. job_status j = in_progress) jobs"

definition polling_effect :: "backup_job list \<Rightarrow> nat option" where
  \<comment> \<open>the period in milliseconds of the interval the effect sets, \<open>None\<close> when it sets none\<close>
  "polling_effect jobs = (if \<not> hasInProgress jobs then None else Some 5000)"

record poll_state =
  jobs :: "backup_job list"
  interval :: "nat option"  \<comment> \<open>the interval that is set, with its period\<close>
  refreshes :: nat  \<comment> \<open>how many times the interval has fired loadJobs and loadBackups\<close>

datatype poll_event =
    SetJobs "backup_job list"  \<comment> \<open>loadJobs has stored a new list\<close>
  | Elapsed  \<comment> \<open>the period of the interval has passed, if one is set\<close>

definition mounted :: poll_state where
  "mounted = \<lparr>jobs = [], interval = polling_effect [], refreshes = 0\<rparr>"

fun poll_step :: "poll_state \<Rightarrow> poll_event \<Rightarrow> poll_state" where
  \<comment> \<open>a change of the list runs the cleanup, which clears the interval, then the effect\<close>
  "poll_step s (SetJobs js) = s\<lparr>jobs := js, interval := polling_effect js\<rparr>"
| "poll_step s Elapsed =
     (case interval s of None \<Rightarrow> s | Some period \<Rightarrow> s\<lparr>refreshes := Suc (refreshes s)\<rparr>)"

definition poll_run :: "poll_event list \<Rightarrow> poll_state" where
  "poll_run events = foldl poll_step mounted events"

definition quiet :: "poll_event \<Rightarrow> bool" where
  \<comment> \<open>an event that brings no job in progress\<close>
  "quiet e = (case e of SetJobs js \<Rightarrow> \<not> hasInProgress js | Elapsed \<Rightarrow> True)"

section \<open>Comma-separated numeric text\<close>

text \<open>
  The vocabulary of the statements about comma-separated numbers: the tokens of a text, and
  what makes a token a number.
\<close>

fun split_commas :: "string \<Rightarrow> string list" where
  \<comment> \<open>the tokens of a text between its commas, as \<^verbatim>\<open>split(',')\<close> gives them\<close>
  "split_commas [] = [[]]"
| "split_commas (c # cs) =
     (if c = CHR '','' then [] # split_commas cs
      else (case split_commas cs of [] \<Rightarrow> [[c]] | t # ts \<Rightarrow> (c # t) # ts))"

definition json_number_token :: "string \<Rightarrow> bool" where
  \<comment> \<open>a number literal of JSON, white space allowed on both sides\<close>
  "json_number_token t =
     (case scan_number (skip_ws t) of None \<Rightarrow> False | Some (lit, rest) \<Rightarrow> skip_ws rest = [])"

definition token_number :: "string \<Rightarrow> json" where
  \<comment> \<open>the number a numeric token stands for\<close>
  "token_number t =
     (case scan_number (skip_ws t) of None \<Rightarrow> JNull | Some (lit, rest) \<Rightarrow> JNumber lit)"

fun join_commas :: "string list \<Rightarrow> string" where
  \<comment> \<open>the inverse of \<open>split_commas\<close>\<close>
  "join_commas [] = []"
| "join_commas [t] = t"
| "join_commas (t # u # ts) = t @ CHR '','' # join_commas (u # ts)"

definition safe :: "string \<Rightarrow> bool" where
  \<comment> \<open>a text that is empty or opens with a comma or a closing bracket\<close>
  "safe r = (case r of [] \<Rightarrow> True | d # r' \<Rightarrow> d = CHR '','' \<or> d = CHR '']'')"

section \<open>JSON.parse: the fuel is enough\<close>

text \<open>
  A value that the parser reads with some fuel is read with the fuel \<open>JSON_parse\<close> gives
  it: \<open>None\<close> is a text that is not JSON, never a lack of fuel.
\<close>

lemma skip_ws_length: "length (skip_ws cs) \<le> length cs"
  by (simp add: skip_ws_def length_dropWhile_le)

lemma skip_ws_Cons_length: "skip_ws cs = c # r \<Longrightarrow> length r < length cs"
  using skip_ws_length [of cs] by simp

lemma scan_string_length: "scan_string cs = Some (s, r) \<Longrightarrow> length r < length cs"
proof (induction cs arbitrary: s r rule: scan_string.induct)
  case 1
  then show ?case by simp
next
  case (2 c cs)
  show ?case
  proof (cases "c = CHR 0x22")
    case True
    with "2.prems" show ?thesis by simp
  next
    case q: False
    show ?thesis
    proof (cases "c = CHR 0x5C")
      case True
      with "2.prems" q obtain e r0 where cs: "cs = e # r0" by (cases cs) auto
      show ?thesis
      proof (cases "e \<in> set [CHR 0x22, CHR 0x5C, CHR ''/'', CHR ''b'', CHR ''f'', CHR ''n'', CHR ''r'', CHR ''t'']")
        case e: True
        with "2.prems" q True cs obtain s' where "scan_string r0 = Some (s', r)"
          by (auto simp del: set_simps)
        from "2.IH"(1) [OF q True cs e this] cs show ?thesis by simp
      next
        case e: False
        with "2.prems" q True cs have u: "e = CHR ''u'' \<and> 4 \<le> length r0 \<and> list_all is_hex_digit (take 4 r0)"
          by (auto simp del: set_simps split: if_splits)
        with "2.prems" q True cs e obtain s' where "scan_string (drop 4 r0) = Some (s', r)"
          by (auto simp del: set_simps)
        from "2.IH"(2) [OF q True cs e u this] cs show ?thesis by simp
      qed
    next
      case False
      with "2.prems" q have lo: "\<not> (of_char c :: nat) < 32"
        by (auto split: if_splits)
      with "2.prems" q False obtain s' where "scan_string cs = Some (s', r)"
        by auto
      from "2.IH"(3) [OF q False lo this] show ?thesis by simp
    qed
  qed
qed

lemma scan_number_length: "scan_number cs = Some (lit, r) \<Longrightarrow> length r < length cs"
proof -
  assume a: "scan_number cs = Some (lit, r)"
  then obtain y1 y2 where
    i: "int_part (opt_minus cs) = Some y1" and f: "frac_part y1 = Some y2"
    and e: "exp_part y2 = Some r"
    by (auto simp: scan_number_def split: option.splits)
  have "length (opt_minus cs) \<le> length cs"
    by (cases cs) (auto simp: opt_minus_def)
  moreover from i have "length y1 < length (opt_minus cs)"
    by (auto simp: int_part_def length_dropWhile_le split: list.splits if_splits
        intro: le_less_trans [OF length_dropWhile_le] dest!: arg_cong [where f = length])
       (metis length_dropWhile_le takeWhile_dropWhile_id length_append length_Cons
          add_Suc less_add_Suc2 le_less_trans less_irrefl_nat not_less add.commute)+
  moreover from f have "length y2 \<le> length y1"
    by (cases y1) (auto simp: frac_part_def split: if_splits
        intro: le_trans [OF length_dropWhile_le])
  moreover from e have "length r \<le> length y2"
    by (cases y2) (auto simp: exp_part_def opt_sign_def split: if_splits list.splits
        intro: le_trans [OF length_dropWhile_le])
  ultimately show ?thesis by simp
qed


lemma parse_scalar_length:
  assumes "parse_scalar s = Some (v, r)"
  shows "length r < length s"
proof (cases s)
  case Nil
  with assms show ?thesis by (simp add: parse_scalar_def)
next
  case (Cons c r0)
  show ?thesis
  proof (cases "c = CHR 0x22")
    case True
    with assms Cons obtain x where "scan_string r0 = Some (x, r)"
      by (auto simp: parse_scalar_def)
    from scan_string_length [OF this] Cons show ?thesis by simp
  next
    case nq: False
    show ?thesis
    proof (cases "c = CHR ''-'' \<or> is_digit c")
      case True
      with assms Cons nq obtain lit where "scan_number s = Some (lit, r)"
        by (auto simp: parse_scalar_def)
      from scan_number_length [OF this] show ?thesis .
    next
      case False
      with assms Cons nq show ?thesis
        by (auto simp add: parse_scalar_def simp del: Cons_prefix_Cons split: if_splits)
    qed
  qed
qed

lemma parse_value_inv:
  assumes "parse_value (Suc n) cs = Some (v, r)"
  obtains
    (empty_array) r0 where "skip_ws cs = CHR ''['' # r0" "skip_ws r0 = CHR '']'' # r" "v = JArray []"
  | (array) r0 d r1 vs where "skip_ws cs = CHR ''['' # r0" "skip_ws r0 = d # r1" "d \<noteq> CHR '']''"
      "parse_elements n r0 = Some (vs, r)" "v = JArray vs"
  | (empty_object) r0 where "skip_ws cs = CHR ''{'' # r0" "skip_ws r0 = CHR ''}'' # r" "v = JObject []"
  | (object) r0 d r1 ms where "skip_ws cs = CHR ''{'' # r0" "skip_ws r0 = d # r1" "d \<noteq> CHR ''}''"
      "parse_members n r0 = Some (ms, r)" "v = JObject ms"
  | (scalar) c r0 where "skip_ws cs = c # r0" "c \<noteq> CHR ''[''" "c \<noteq> CHR ''{''"
      "parse_scalar (c # r0) = Some (v, r)"
proof -
  from assms obtain c r0 where sk: "skip_ws cs = c # r0"
    by (cases "skip_ws cs") auto
  show thesis
  proof (cases "c = CHR ''[''")
    case True
    with assms sk obtain d r1 where d: "skip_ws r0 = d # r1"
      by (cases "skip_ws r0") auto
    show ?thesis
    proof (cases "d = CHR '']''")
      case dT: True
      with assms sk True d have "v = JArray []" "r = r1" by auto
      with sk True d dT show ?thesis by (intro empty_array) auto
    next
      case dF: False
      with assms sk True d obtain vs where "parse_elements n r0 = Some (vs, r)" "v = JArray vs"
        by auto
      with sk True d dF show ?thesis by (intro array) auto
    qed
  next
    case nb: False
    show ?thesis
    proof (cases "c = CHR ''{''")
      case True
      with assms sk obtain d r1 where d: "skip_ws r0 = d # r1"
        by (cases "skip_ws r0") auto
      show ?thesis
      proof (cases "d = CHR ''}''")
        case dT: True
        with assms sk True d have "v = JObject []" "r = r1" by auto
        with sk True d dT show ?thesis by (intro empty_object) auto
      next
        case dF: False
        with assms sk True d obtain ms where "parse_members n r0 = Some (ms, r)" "v = JObject ms"
          by auto
        with sk True d dF show ?thesis by (intro object) auto
      qed
    next
      case no: False
      with assms sk nb have "parse_scalar (c # r0) = Some (v, r)" by simp
      with sk nb no show ?thesis by (intro scalar) auto
    qed
  qed
qed

lemma parse_elements_inv:
  assumes "parse_elements (Suc n) cs = Some (vs, r)"
  obtains
    (last) v r1 where "parse_value n cs = Some (v, r1)" "skip_ws r1 = CHR '']'' # r" "vs = [v]"
  | (more) v r1 r2 vs' where "parse_value n cs = Some (v, r1)" "skip_ws r1 = CHR '','' # r2"
      "parse_elements n r2 = Some (vs', r)" "vs = v # vs'"
proof -
  from assms obtain v r1 where pv: "parse_value n cs = Some (v, r1)"
    by (cases "parse_value n cs") auto
  with assms obtain c r2 where sk: "skip_ws r1 = c # r2"
    by (cases "skip_ws r1") auto
  show thesis
  proof (cases "c = CHR '',''")
    case True
    with assms pv sk obtain vs' where "parse_elements n r2 = Some (vs', r)" "vs = v # vs'"
      by (cases "parse_elements n r2") auto
    with pv sk True show ?thesis by (intro more) auto
  next
    case False
    with assms pv sk have "c = CHR '']''" "r = r2" "vs = [v]"
      by (auto split: if_splits)
    with pv sk show ?thesis by (intro last) auto
  qed
qed


lemma parse_members_inv:
  assumes "parse_members (Suc n) cs = Some (ms, r)"
  obtains
    (last) r0 key r1 r2 v r3 where "skip_ws cs = CHR 0x22 # r0" "scan_string r0 = Some (key, r1)"
      "skip_ws r1 = CHR '':'' # r2" "parse_value n r2 = Some (v, r3)"
      "skip_ws r3 = CHR ''}'' # r" "ms = [(key, v)]"
  | (more) r0 key r1 r2 v r3 r4 ms' where "skip_ws cs = CHR 0x22 # r0"
      "scan_string r0 = Some (key, r1)" "skip_ws r1 = CHR '':'' # r2"
      "parse_value n r2 = Some (v, r3)" "skip_ws r3 = CHR '','' # r4"
      "parse_members n r4 = Some (ms', r)" "ms = (key, v) # ms'"
proof -
  from assms obtain q r0 where sk: "skip_ws cs = q # r0"
    by (cases "skip_ws cs") auto
  with assms have q: "q = CHR 0x22" by (auto split: if_splits)
  from assms sk q obtain key r1 where ss: "scan_string r0 = Some (key, r1)"
    by (cases "scan_string r0") auto
  from assms sk q ss obtain c1 r2 where sk1: "skip_ws r1 = c1 # r2"
    by (cases "skip_ws r1") auto
  with assms sk q ss have c1: "c1 = CHR '':''" by (auto split: if_splits)
  from assms sk q ss sk1 c1 obtain v r3 where pv: "parse_value n r2 = Some (v, r3)"
    by (cases "parse_value n r2") auto
  from assms sk q ss sk1 c1 pv obtain c3 r4 where sk3: "skip_ws r3 = c3 # r4"
    by (cases "skip_ws r3") auto
  show thesis
  proof (cases "c3 = CHR '',''")
    case True
    with assms sk q ss sk1 c1 pv sk3 obtain ms' where
      "parse_members n r4 = Some (ms', r)" "ms = (key, v) # ms'"
      by (cases "parse_members n r4") auto
    with sk q ss sk1 c1 pv sk3 True show ?thesis by (intro more) auto
  next
    case False
    with assms sk q ss sk1 c1 pv sk3 have "c3 = CHR ''}''" "r = r4" "ms = [(key, v)]"
      by (auto split: if_splits)
    with sk q ss sk1 c1 pv sk3 show ?thesis by (intro last) auto
  qed
qed

lemma fuel_enough_aux:
  "(\<forall>cs v r. parse_value n cs = Some (v, r) \<longrightarrow>
      length r < length cs \<and> (\<forall>m. 2 * length cs \<le> m \<longrightarrow> parse_value m cs = Some (v, r))) \<and>
   (\<forall>cs vs r. parse_elements n cs = Some (vs, r) \<longrightarrow>
      length r < length cs \<and>
      (\<forall>m. 2 * length cs + 1 \<le> m \<longrightarrow> parse_elements m cs = Some (vs, r))) \<and>
   (\<forall>cs ms r. parse_members n cs = Some (ms, r) \<longrightarrow>
      length r < length cs \<and>
      (\<forall>m. 2 * length cs + 1 \<le> m \<longrightarrow> parse_members m cs = Some (ms, r)))"
proof (induction n)
  case 0
  show ?case by simp
next
  case (Suc n)
  then have IHv: "\<And>cs v r. parse_value n cs = Some (v, r) \<Longrightarrow> length r < length cs"
    and IHv': "\<And>cs v r m. parse_value n cs = Some (v, r) \<Longrightarrow> 2 * length cs \<le> m \<Longrightarrow>
                 parse_value m cs = Some (v, r)"
    and IHe: "\<And>cs vs r. parse_elements n cs = Some (vs, r) \<Longrightarrow> length r < length cs"
    and IHe': "\<And>cs vs r m. parse_elements n cs = Some (vs, r) \<Longrightarrow> 2 * length cs + 1 \<le> m \<Longrightarrow>
                 parse_elements m cs = Some (vs, r)"
    and IHm: "\<And>cs ms r. parse_members n cs = Some (ms, r) \<Longrightarrow> length r < length cs"
    and IHm': "\<And>cs ms r m. parse_members n cs = Some (ms, r) \<Longrightarrow> 2 * length cs + 1 \<le> m \<Longrightarrow>
                 parse_members m cs = Some (ms, r)"
    by blast+
  have V: "length r < length cs \<and> (\<forall>m. 2 * length cs \<le> m \<longrightarrow> parse_value m cs = Some (v, r))"
    if a: "parse_value (Suc n) cs = Some (v, r)" for cs v r
    using a
  proof (cases rule: parse_value_inv)
    case (empty_array r0)
    from skip_ws_Cons_length [OF empty_array(1)] skip_ws_Cons_length [OF empty_array(2)]
    have len: "length r < length cs" by simp
    have "parse_value m cs = Some (v, r)" if "2 * length cs \<le> m" for m
    proof -
      from that len obtain m' where "m = Suc m'" by (cases m) auto
      with empty_array show ?thesis by simp
    qed
    with len show ?thesis by blast
  next
    case (array r0 d r1 vs)
    from skip_ws_Cons_length [OF array(1)] IHe [OF array(4)]
    have len: "length r < length cs" and l0: "length r0 < length cs" by simp_all
    have "parse_value m cs = Some (v, r)" if "2 * length cs \<le> m" for m
    proof -
      from that len obtain m' where m: "m = Suc m'" by (cases m) auto
      with that l0 have "2 * length r0 + 1 \<le> m'" by simp
      from IHe' [OF array(4) this] array m show ?thesis by simp
    qed
    with len show ?thesis by blast
  next
    case (empty_object r0)
    from skip_ws_Cons_length [OF empty_object(1)] skip_ws_Cons_length [OF empty_object(2)]
    have len: "length r < length cs" by simp
    have "parse_value m cs = Some (v, r)" if "2 * length cs \<le> m" for m
    proof -
      from that len obtain m' where "m = Suc m'" by (cases m) auto
      with empty_object show ?thesis by simp
    qed
    with len show ?thesis by blast
  next
    case (object r0 d r1 ms)
    from skip_ws_Cons_length [OF object(1)] IHm [OF object(4)]
    have len: "length r < length cs" and l0: "length r0 < length cs" by simp_all
    have "parse_value m cs = Some (v, r)" if "2 * length cs \<le> m" for m
    proof -
      from that len obtain m' where m: "m = Suc m'" by (cases m) auto
      with that l0 have "2 * length r0 + 1 \<le> m'" by simp
      from IHm' [OF object(4) this] object m show ?thesis by simp
    qed
    with len show ?thesis by blast
  next
    case (scalar c r0)
    from parse_scalar_length [OF scalar(4)] skip_ws_length [of cs] scalar(1)
    have len: "length r < length cs" by simp
    have "parse_value m cs = Some (v, r)" if "2 * length cs \<le> m" for m
    proof -
      from that len obtain m' where "m = Suc m'" by (cases m) auto
      with scalar show ?thesis by simp
    qed
    with len show ?thesis by blast
  qed
  have E: "length r < length cs \<and>
      (\<forall>m. 2 * length cs + 1 \<le> m \<longrightarrow> parse_elements m cs = Some (vs, r))"
    if a: "parse_elements (Suc n) cs = Some (vs, r)" for cs vs r
    using a
  proof (cases rule: parse_elements_inv)
    case (last v r1)
    from IHv [OF last(1)] skip_ws_Cons_length [OF last(2)]
    have len: "length r < length cs" by simp
    have "parse_elements m cs = Some (vs, r)" if "2 * length cs + 1 \<le> m" for m
    proof -
      from that obtain m' where m: "m = Suc m'" by (cases m) auto
      with that have "2 * length cs \<le> m'" by simp
      from IHv' [OF last(1) this] last m show ?thesis by simp
    qed
    with len show ?thesis by blast
  next
    case (more v r1 r2 vs')
    from IHv [OF more(1)] skip_ws_Cons_length [OF more(2)] IHe [OF more(3)]
    have len: "length r < length cs" and l2: "length r2 < length cs" by simp_all
    have "parse_elements m cs = Some (vs, r)" if "2 * length cs + 1 \<le> m" for m
    proof -
      from that obtain m' where m: "m = Suc m'" by (cases m) auto
      with that l2 have "2 * length cs \<le> m'" "2 * length r2 + 1 \<le> m'" by simp_all
      from IHv' [OF more(1) this(1)] IHe' [OF more(3) this(2)] more m show ?thesis by simp
    qed
    with len show ?thesis by blast
  qed
  have M: "length r < length cs \<and>
      (\<forall>m. 2 * length cs + 1 \<le> m \<longrightarrow> parse_members m cs = Some (ms, r))"
    if a: "parse_members (Suc n) cs = Some (ms, r)" for cs ms r
    using a
  proof (cases rule: parse_members_inv)
    case (last r0 key r1 r2 v r3)
    from skip_ws_Cons_length [OF last(1)] scan_string_length [OF last(2)]
      skip_ws_Cons_length [OF last(3)] IHv [OF last(4)] skip_ws_Cons_length [OF last(5)]
    have len: "length r < length cs" and l2: "length r2 < length cs" by simp_all
    have "parse_members m cs = Some (ms, r)" if "2 * length cs + 1 \<le> m" for m
    proof -
      from that obtain m' where m: "m = Suc m'" by (cases m) auto
      with that l2 have "2 * length r2 \<le> m'" by simp
      from IHv' [OF last(4) this] last m show ?thesis by simp
    qed
    with len show ?thesis by blast
  next
    case (more r0 key r1 r2 v r3 r4 ms')
    from skip_ws_Cons_length [OF more(1)] scan_string_length [OF more(2)]
      skip_ws_Cons_length [OF more(3)] IHv [OF more(4)] skip_ws_Cons_length [OF more(5)]
      IHm [OF more(6)]
    have len: "length r < length cs" and l2: "length r2 < length cs"
      and l4: "length r4 < length cs" by simp_all
    have "parse_members m cs = Some (ms, r)" if "2 * length cs + 1 \<le> m" for m
    proof -
      from that obtain m' where m: "m = Suc m'" by (cases m) auto
      with that l2 l4 have "2 * length r2 \<le> m'" "2 * length r4 + 1 \<le> m'" by simp_all
      from IHv' [OF more(4) this(1)] IHm' [OF more(6) this(2)] more m show ?thesis by simp
    qed
    with len show ?thesis by blast
  qed
  from V E M show ?case by blast
qed

lemma fuel_enough:
  assumes "parse_value n s = Some (v, r)"
  shows "parse_value (2 * length s + 2) s = Some (v, r)"
proof -
  from fuel_enough_aux [of n] assms
  have "\<forall>m. 2 * length s \<le> m \<longrightarrow> parse_value m s = Some (v, r)"
    by blast
  then show ?thesis
    by (auto simp del: parse_value.simps)
qed

lemma JSON_parse_complete:
  assumes "parse_value n s = Some (v, r)" and "skip_ws r = []"
  shows "JSON_parse s = Some v"
  using fuel_enough [OF assms(1)] assms(2) by (simp add: JSON_parse_def)

section \<open>Search: the result count and the search depth\<close>

lemma search_aborts_on_bad_k:
  assumes "isNaN (parseInt (s_k f)) \<or> num_le (parseInt (s_k f)) 0"
  shows "search_calls (handleSearch api n h f) = []"
    and "n \<noteq> [] \<Longrightarrow> search_error (handleSearch api n h f) \<noteq> None"
    and "n \<noteq> [] \<Longrightarrow> dense_vector (s_vector f) = Inr xs \<Longrightarrow>
           search_error (handleSearch api n h f) = Some (Text ''K must be a positive number'')"
  using assms
  by (auto simp add: handleSearch_def searchRequest_def k_value_def split: sum.splits)

lemma search_proceeds_on_good_k:
  assumes "\<not> isNaN (parseInt (s_k f))" "\<not> num_le (parseInt (s_k f)) 0" "n \<noteq> []"
    and "dense_vector (s_vector f) = Inr xs"
    and "filter_value (s_filter f) = Inr flt"
    and "sparse_fields h (s_sparseIndices f) (s_sparseValues f) = Inr (si, sv)"
  shows "search_calls (handleSearch api n h f) =
           [(n, \<lparr>rq_vector = xs, rq_k = parseInt (s_k f), rq_ef = ef_value (s_ef f),
                 rq_filter = flt, rq_include_vectors = s_includeVectors f,
                 rq_sparse_indices = si, rq_sparse_values = sv\<rparr>)]"
  using assms
  by (simp add: handleSearch_def searchRequest_def k_value_def Let_def)

lemma ef_dropped:
  assumes "isNaN (parseInt ef) \<or> num_le (parseInt ef) 0"
  shows "ef_value ef = None"
  using assms by (auto simp: ef_value_def isNaN_def num_le_def num_gt_def split: option.splits)

lemma ef_value_blank: "ef_value [] = None"
  by (simp add: ef_value_def trim_def)

lemma search_ignores_dropped_ef:
  assumes "ef_value (s_ef f) = None"
  shows "handleSearch api n h f = handleSearch api n h (f\<lparr>s_ef := []\<rparr>)"
    and "list_all (\<lambda>c. rq_ef (snd c) = None) (search_calls (handleSearch api n h f))"
  using assms
  by (auto simp add: handleSearch_def searchRequest_def ef_value_blank Let_def split: sum.splits)

lemma k_examples_bad:
  "list_all (\<lambda>k. isNaN (parseInt k) \<or> num_le (parseInt k) 0) [''0'', ''-1'', ''abc'', []]"
  by code_simp

lemma k_examples_good:
  "list_all (\<lambda>k. \<not> isNaN (parseInt k) \<and> \<not> num_le (parseInt k) 0) [''1'', ''5'', ''100'']"
  by code_simp

text \<open>
  Claim C6. With an index selected, a search whose k field does not read (by parseInt) as
  an integer above zero ends with an error and without a call of the adapter; this is the
  case of the k fields 0, -1, abc and the empty one. A k field that reads as an integer
  above zero, as 1, 5 and 100 do, lets the search go on: when the vector, the filter and
  the sparse fields are valid too, the adapter is called once, with that k. An ef field
  that is not blank and does not read as an integer above zero changes nothing: the
  outcome is the one of a blank ef field, and no request carries an ef.
\<close>

theorem search_k_strict_ef_lenient:
  assumes "n \<noteq> []"
  shows
    "(isNaN (parseInt (s_k f)) \<or> num_le (parseInt (s_k f)) 0 \<or>
        s_k f \<in> set [''0'', ''-1'', ''abc'', []] \<longrightarrow>
        search_calls (handleSearch api n h f) = [] \<and>
        search_error (handleSearch api n h f) \<noteq> None) \<and>
     ((\<not> isNaN (parseInt (s_k f)) \<and> \<not> num_le (parseInt (s_k f)) 0 \<or>
         s_k f \<in> set [''1'', ''5'', ''100'']) \<and>
        dense_vector (s_vector f) = Inr xs \<and> filter_value (s_filter f) = Inr flt \<and>
        sparse_fields h (s_sparseIndices f) (s_sparseValues f) = Inr (si, sv) \<longrightarrow>
        search_calls (handleSearch api n h f) =
          [(n, \<lparr>rq_vector = xs, rq_k = parseInt (s_k f), rq_ef = ef_value (s_ef f),
                rq_filter = flt, rq_include_vectors = s_includeVectors f,
                rq_sparse_indices = si, rq_sparse_values = sv\<rparr>)]) \<and>
     (trim (s_ef f) \<noteq> [] \<and> (isNaN (parseInt (s_ef f)) \<or> num_le (parseInt (s_ef f)) 0) \<longrightarrow>
        handleSearch api n h f = handleSearch api n h (f\<lparr>s_ef := []\<rparr>) \<and>
        list_all (\<lambda>c. rq_ef (snd c) = None) (search_calls (handleSearch api n h f)))"
proof (intro conjI impI)
  assume "isNaN (parseInt (s_k f)) \<or> num_le (parseInt (s_k f)) 0 \<or>
    s_k f \<in> set [''0'', ''-1'', ''abc'', []]"
  then have bad: "isNaN (parseInt (s_k f)) \<or> num_le (parseInt (s_k f)) 0"
    using k_examples_bad by auto
  show "search_calls (handleSearch api n h f) = []"
    by (rule search_aborts_on_bad_k(1) [OF bad])
  show "search_error (handleSearch api n h f) \<noteq> None"
    by (rule search_aborts_on_bad_k(2) [OF bad assms])
next
  assume a: "(\<not> isNaN (parseInt (s_k f)) \<and> \<not> num_le (parseInt (s_k f)) 0 \<or>
      s_k f \<in> set [''1'', ''5'', ''100'']) \<and>
    dense_vector (s_vector f) = Inr xs \<and> filter_value (s_filter f) = Inr flt \<and>
    sparse_fields h (s_sparseIndices f) (s_sparseValues f) = Inr (si, sv)"
  then have good: "\<not> isNaN (parseInt (s_k f))" "\<not> num_le (parseInt (s_k f)) 0"
    using k_examples_good by auto
  show "search_calls (handleSearch api n h f) =
          [(n, \<lparr>rq_vector = xs, rq_k = parseInt (s_k f), rq_ef = ef_value (s_ef f),
                rq_filter = flt, rq_include_vectors = s_includeVectors f,
                rq_sparse_indices = si, rq_sparse_values = sv\<rparr>)]"
    using a by (intro search_proceeds_on_good_k good assms) simp_all
next
  assume "trim (s_ef f) \<noteq> [] \<and> (isNaN (parseInt (s_ef f)) \<or> num_le (parseInt (s_ef f)) 0)"
  then have none: "ef_value (s_ef f) = None"
    by (simp add: ef_dropped)
  show "handleSearch api n h f = handleSearch api n h (f\<lparr>s_ef := []\<rparr>)"
    by (rule search_ignores_dropped_ef(1) [OF none])
  show "list_all (\<lambda>c. rq_ef (snd c) = None) (search_calls (handleSearch api n h f))"
    by (rule search_ignores_dropped_ef(2) [OF none])
qed

theorem search_k_strict_ef_lenient_witness:
  "search_calls
     (handleSearch (\<lambda>n r. \<lparr>success = True, data = Some [()], error = None\<rparr>) ''idx'' False
        \<lparr>s_vector = ''0.1, 0.2'', s_sparseIndices = [], s_sparseValues = [], s_k = ''0'',
         s_ef = ''abc'', s_filter = [], s_includeVectors = False\<rparr>) = [] \<and>
   search_error
     (handleSearch (\<lambda>n r. \<lparr>success = True, data = Some [()], error = None\<rparr>) ''idx'' False
        \<lparr>s_vector = ''0.1, 0.2'', s_sparseIndices = [], s_sparseValues = [], s_k = ''0'',
         s_ef = ''abc'', s_filter = [], s_includeVectors = False\<rparr>) \<noteq> None \<and>
   search_calls
     (handleSearch (\<lambda>n r. \<lparr>success = True, data = Some [()], error = None\<rparr>) ''idx'' False
        \<lparr>s_vector = ''0.1, 0.2'', s_sparseIndices = [], s_sparseValues = [], s_k = ''5'',
         s_ef = ''abc'', s_filter = [], s_includeVectors = False\<rparr>) =
     [(''idx'', \<lparr>rq_vector = [JNumber ''0.1'', JNumber ''0.2''], rq_k = Some 5, rq_ef = None,
                rq_filter = None, rq_include_vectors = False,
                rq_sparse_indices = None, rq_sparse_values = None\<rparr>)] \<and>
   handleSearch (\<lambda>n r. \<lparr>success = True, data = Some [()], error = None\<rparr>) ''idx'' False
        \<lparr>s_vector = ''0.1, 0.2'', s_sparseIndices = [], s_sparseValues = [], s_k = ''5'',
         s_ef = ''abc'', s_filter = [], s_includeVectors = False\<rparr> =
   handleSearch (\<lambda>n r. \<lparr>success = True, data = Some [()], error = None\<rparr>) ''idx'' False
        \<lparr>s_vector = ''0.1, 0.2'', s_sparseIndices = [], s_sparseValues = [], s_k = ''5'',
         s_ef = [], s_filter = [], s_includeVectors = False\<rparr>"
proof -
  let ?api = "\<lambda>(n::string) (r::search_request). \<lparr>success = True, data = Some [()], error = None\<rparr>"
  let ?f0 = "\<lparr>s_vector = ''0.1, 0.2'', s_sparseIndices = [], s_sparseValues = [], s_k = ''0'',
              s_ef = ''abc'', s_filter = [], s_includeVectors = False\<rparr>"
  let ?f5 = "\<lparr>s_vector = ''0.1, 0.2'', s_sparseIndices = [], s_sparseValues = [], s_k = ''5'',
              s_ef = ''abc'', s_filter = [], s_includeVectors = False\<rparr>"
  have n: "''idx'' \<noteq> []" by simp
  have dense: "dense_vector ''0.1, 0.2'' = Inr [JNumber ''0.1'', JNumber ''0.2'']"
    by code_simp
  have flt: "filter_value [] = Inr None"
    by code_simp
  have sparse: "sparse_fields False [] [] = Inr (None, None)"
    by code_simp
  have ef: "trim ''abc'' \<noteq> [] \<and> (isNaN (parseInt ''abc'') \<or> num_le (parseInt ''abc'') 0)"
    by code_simp
  have k5: "parseInt ''5'' = Some 5" and efv: "ef_value ''abc'' = None"
    by code_simp+
  note t0 = search_k_strict_ef_lenient [OF n, where f = ?f0 and api = ?api and h = False]
  note t5 = search_k_strict_ef_lenient [OF n, where f = ?f5 and api = ?api and h = False
      and xs = "[JNumber ''0.1'', JNumber ''0.2'']" and flt = None and si = None and sv = None]
  have bad: "search_calls (handleSearch ?api ''idx'' False ?f0) = [] \<and>
             search_error (handleSearch ?api ''idx'' False ?f0) \<noteq> None"
    by (rule t0 [THEN conjunct1, THEN mp]) simp
  have "search_calls (handleSearch ?api ''idx'' False ?f5) =
          [(''idx'', \<lparr>rq_vector = [JNumber ''0.1'', JNumber ''0.2''],
              rq_k = parseInt (s_k ?f5), rq_ef = ef_value (s_ef ?f5),
              rq_filter = None, rq_include_vectors = s_includeVectors ?f5,
              rq_sparse_indices = None, rq_sparse_values = None\<rparr>)]"
    by (rule t5 [THEN conjunct2, THEN conjunct1, THEN mp]) (simp add: dense flt sparse)
  then have good: "search_calls (handleSearch ?api ''idx'' False ?f5) =
               [(''idx'', \<lparr>rq_vector = [JNumber ''0.1'', JNumber ''0.2''], rq_k = Some 5,
                   rq_ef = None, rq_filter = None, rq_include_vectors = False,
                   rq_sparse_indices = None, rq_sparse_values = None\<rparr>)]"
    by (simp add: k5 efv)
  have "handleSearch ?api ''idx'' False ?f5 = handleSearch ?api ''idx'' False (?f5\<lparr>s_ef := []\<rparr>) \<and>
        list_all (\<lambda>c. rq_ef (snd c) = None) (search_calls (handleSearch ?api ''idx'' False ?f5))"
    by (rule t5 [THEN conjunct2, THEN conjunct2, THEN mp]) (simp add: ef)
  then have same: "handleSearch ?api ''idx'' False ?f5 =
      handleSearch ?api ''idx'' False
        \<lparr>s_vector = ''0.1, 0.2'', s_sparseIndices = [], s_sparseValues = [], s_k = ''5'',
         s_ef = [], s_filter = [], s_includeVectors = False\<rparr>"
    by simp
  show ?thesis
    by (intro conjI bad [THEN conjunct1] bad [THEN conjunct2] good same)
qed

section \<open>Create index: validation before the call\<close>

lemma not_positive_iff:
  "not_positive s = (s = [] \<or> parseInt s = None \<or> (\<exists>v. parseInt s = Some v \<and> v \<le> 0))"
  by (cases "parseInt s") (simp_all add: not_positive_def isNaN_def num_le_def)

lemma outside_iff:
  "outside lo hi (parseInt s) =
     (parseInt s = None \<or> (\<exists>v. parseInt s = Some v \<and> (v < lo \<or> hi < v)))"
  by (cases "parseInt s") (simp_all add: outside_def isNaN_def num_lt_def num_gt_def)

lemma create_outcome_by_check:
  "create_handleSubmit api f =
     (if trim (c_name f) = [] then
        \<lparr>create_calls = [], create_error = Some (Text ''Index name is required''),
         navigated = False\<rparr>
      else if not_positive (c_dimension f) then
        \<lparr>create_calls = [], create_error = Some (Text ''Dimension must be a positive number''),
         navigated = False\<rparr>
      else if c_isHybrid f \<and> not_positive (c_sparseDimension f) then
        \<lparr>create_calls = [],
         create_error =
           Some (Text ''Sparse dimension must be a positive number for hybrid indexes''),
         navigated = False\<rparr>
      else if c_showAdvanced f \<and> outside 4 64 (parseInt (c_mParam f)) then
        \<lparr>create_calls = [], create_error = Some (Text ''M parameter must be between 4 and 64''),
         navigated = False\<rparr>
      else if c_showAdvanced f \<and> outside 64 512 (parseInt (c_efConstruction f)) then
        \<lparr>create_calls = [],
         create_error = Some (Text ''ef_construction must be between 64 and 512''),
         navigated = False\<rparr>
      else
        (let call =
           \<lparr>cc_indexName = trim (c_name f), cc_dimension = parseInt (c_dimension f),
            cc_spaceType = c_spaceType f,
            cc_options =
              \<lparr>o_precision = c_precision f,
               o_sparse_dim =
                 (if c_isHybrid f then Some (parseInt (c_sparseDimension f)) else None),
               o_M = (if c_showAdvanced f then Some (parseInt (c_mParam f)) else None),
               o_ef_con =
                 (if c_showAdvanced f then Some (parseInt (c_efConstruction f)) else None)\<rparr>\<rparr>
         in if \<not> success (api call) then
              \<lparr>create_calls = [call],
               create_error = Some (Text (error_or (api call) ''Failed to create index'')),
               navigated = False\<rparr>
            else \<lparr>create_calls = [call], create_error = None, navigated = True\<rparr>))"
  by (simp add: create_handleSubmit_def createCall_def Let_def)

lemma create_rejected:
  assumes "trim (c_name f) = [] \<or>
    c_dimension f = [] \<or> parseInt (c_dimension f) = None \<or>
    parseInt (c_dimension f) = Some d \<and> d \<le> 0 \<or>
    c_isHybrid f \<and>
      (c_sparseDimension f = [] \<or> parseInt (c_sparseDimension f) = None \<or>
       parseInt (c_sparseDimension f) = Some sd \<and> sd \<le> 0) \<or>
    c_showAdvanced f \<and>
      (parseInt (c_mParam f) = None \<or>
       parseInt (c_mParam f) = Some m \<and> (m < 4 \<or> 64 < m)) \<or>
    c_showAdvanced f \<and>
      (parseInt (c_efConstruction f) = None \<or>
       parseInt (c_efConstruction f) = Some ec \<and> (ec < 64 \<or> 512 < ec))"
  shows "create_calls (create_handleSubmit api f) = [] \<and>
         create_error (create_handleSubmit api f) \<noteq> None \<and>
         \<not> navigated (create_handleSubmit api f)"
proof -
  from assms have "trim (c_name f) = [] \<or> not_positive (c_dimension f) \<or>
      c_isHybrid f \<and> not_positive (c_sparseDimension f) \<or>
      c_showAdvanced f \<and> outside 4 64 (parseInt (c_mParam f)) \<or>
      c_showAdvanced f \<and> outside 64 512 (parseInt (c_efConstruction f))"
    unfolding not_positive_iff outside_iff by blast
  then show ?thesis
    by (auto simp add: create_outcome_by_check)
qed

lemma create_accepted:
  assumes "trim (c_name f) \<noteq> []" and "c_dimension f \<noteq> []"
    and "parseInt (c_dimension f) = Some d" and "0 < d"
    and "c_isHybrid f \<longrightarrow>
           c_sparseDimension f \<noteq> [] \<and> parseInt (c_sparseDimension f) = Some sd \<and> 0 < sd"
    and "c_showAdvanced f \<longrightarrow>
           parseInt (c_mParam f) = Some m \<and> 4 \<le> m \<and> m \<le> 64 \<and>
           parseInt (c_efConstruction f) = Some ec \<and> 64 \<le> ec \<and> ec \<le> 512"
  shows "create_calls (create_handleSubmit api f) =
     [\<lparr>cc_indexName = trim (c_name f), cc_dimension = Some d, cc_spaceType = c_spaceType f,
       cc_options = \<lparr>o_precision = c_precision f,
          o_sparse_dim = (if c_isHybrid f then Some (Some sd) else None),
          o_M = (if c_showAdvanced f then Some (Some m) else None),
          o_ef_con = (if c_showAdvanced f then Some (Some ec) else None)\<rparr>\<rparr>]"
proof -
  from assms have ok: "\<not> not_positive (c_dimension f)"
    "\<not> (c_isHybrid f \<and> not_positive (c_sparseDimension f))"
    "\<not> (c_showAdvanced f \<and> outside 4 64 (parseInt (c_mParam f)))"
    "\<not> (c_showAdvanced f \<and> outside 64 512 (parseInt (c_efConstruction f)))"
    unfolding not_positive_iff outside_iff by auto
  with assms show ?thesis
    by (auto simp add: create_outcome_by_check Let_def)
qed

lemma create_messages:
  assumes "trim (c_name f) \<noteq> []" and "c_dimension f \<noteq> []"
    and "parseInt (c_dimension f) = Some d" and "0 < d"
    and "c_isHybrid f \<longrightarrow>
           c_sparseDimension f \<noteq> [] \<and> parseInt (c_sparseDimension f) = Some sd \<and> 0 < sd"
    and "c_showAdvanced f"
  shows "parseInt (c_mParam f) = None \<or>
           parseInt (c_mParam f) = Some m \<and> (m < 4 \<or> 64 < m) \<Longrightarrow>
         create_error (create_handleSubmit api f) =
           Some (Text ''M parameter must be between 4 and 64'')"
    and "parseInt (c_mParam f) = Some m \<Longrightarrow> 4 \<le> m \<Longrightarrow> m \<le> 64 \<Longrightarrow>
         parseInt (c_efConstruction f) = None \<or>
           parseInt (c_efConstruction f) = Some ec \<and> (ec < 64 \<or> 512 < ec) \<Longrightarrow>
         create_error (create_handleSubmit api f) =
           Some (Text ''ef_construction must be between 64 and 512'')"
proof -
  from assms have ok: "\<not> not_positive (c_dimension f)"
    "\<not> (c_isHybrid f \<and> not_positive (c_sparseDimension f))"
    unfolding not_positive_iff by auto
  show "create_error (create_handleSubmit api f) =
           Some (Text ''M parameter must be between 4 and 64'')"
    if "parseInt (c_mParam f) = None \<or>
           parseInt (c_mParam f) = Some m \<and> (m < 4 \<or> 64 < m)"
  proof -
    from that have "outside 4 64 (parseInt (c_mParam f))"
      unfolding outside_iff by blast
    with assms ok show ?thesis by (simp add: create_outcome_by_check)
  qed
  show "create_error (create_handleSubmit api f) =
           Some (Text ''ef_construction must be between 64 and 512'')"
    if "parseInt (c_mParam f) = Some m" "4 \<le> m" "m \<le> 64"
      "parseInt (c_efConstruction f) = None \<or>
           parseInt (c_efConstruction f) = Some ec \<and> (ec < 64 \<or> 512 < ec)"
  proof -
    from that have "\<not> outside 4 64 (parseInt (c_mParam f))"
      and "outside 64 512 (parseInt (c_efConstruction f))"
      unfolding outside_iff by auto
    with assms ok show ?thesis by (simp add: create_outcome_by_check)
  qed
qed

lemma m_examples:
  "parseInt ''3'' = Some 3"
  "parseInt ''16'' = Some 16"
  "parseInt ''128'' = Some 128"
  by code_simp+

text \<open>
  Claim C7, amended. The fields are read by parseInt. The create-index form is rejected,
  with an error set, no call of the adapter and no navigation, when the name is blank,
  when the dimension is empty or reads as NaN or as an integer that is not above zero,
  when the index is hybrid and the sparse dimension fails the same test, and, with the
  advanced configuration shown, when M reads as NaN or as an integer below 4 or above 64,
  or ef_construction as NaN or as an integer below 64 or above 512. A form that passes all
  of these is sent once, with the integers as read and nothing clamped. With the fields
  before it valid, an M that fails is rejected with the message about 4 and 64, M = 3 among
  them; M = 16 with ef_construction = 128 is sent to the adapter with M 16 and ef_con 128.
\<close>

theorem create_index_validation:
  "(trim (c_name f) = [] \<or>
    c_dimension f = [] \<or> parseInt (c_dimension f) = None \<or>
    parseInt (c_dimension f) = Some d \<and> d \<le> 0 \<or>
    c_isHybrid f \<and>
      (c_sparseDimension f = [] \<or> parseInt (c_sparseDimension f) = None \<or>
       parseInt (c_sparseDimension f) = Some sd \<and> sd \<le> 0) \<or>
    c_showAdvanced f \<and>
      (parseInt (c_mParam f) = None \<or>
       parseInt (c_mParam f) = Some m \<and> (m < 4 \<or> 64 < m)) \<or>
    c_showAdvanced f \<and>
      (parseInt (c_efConstruction f) = None \<or>
       parseInt (c_efConstruction f) = Some ec \<and> (ec < 64 \<or> 512 < ec)) \<longrightarrow>
      create_calls (create_handleSubmit api f) = [] \<and>
      create_error (create_handleSubmit api f) \<noteq> None \<and>
      \<not> navigated (create_handleSubmit api f)) \<and>
   (trim (c_name f) \<noteq> [] \<and> c_dimension f \<noteq> [] \<and>
    parseInt (c_dimension f) = Some d \<and> 0 < d \<and>
    (c_isHybrid f \<longrightarrow>
       c_sparseDimension f \<noteq> [] \<and> parseInt (c_sparseDimension f) = Some sd \<and> 0 < sd) \<and>
    (c_showAdvanced f \<longrightarrow>
       parseInt (c_mParam f) = Some m \<and> 4 \<le> m \<and> m \<le> 64 \<and>
       parseInt (c_efConstruction f) = Some ec \<and> 64 \<le> ec \<and> ec \<le> 512) \<longrightarrow>
      create_calls (create_handleSubmit api f) =
        [\<lparr>cc_indexName = trim (c_name f), cc_dimension = Some d,
          cc_spaceType = c_spaceType f,
          cc_options = \<lparr>o_precision = c_precision f,
            o_sparse_dim = (if c_isHybrid f then Some (Some sd) else None),
            o_M = (if c_showAdvanced f then Some (Some m) else None),
            o_ef_con = (if c_showAdvanced f then Some (Some ec) else None)\<rparr>\<rparr>]) \<and>
   (trim (c_name f) \<noteq> [] \<and> c_dimension f \<noteq> [] \<and>
    parseInt (c_dimension f) = Some d \<and> 0 < d \<and>
    (c_isHybrid f \<longrightarrow>
       c_sparseDimension f \<noteq> [] \<and> parseInt (c_sparseDimension f) = Some sd \<and> 0 < sd) \<and>
    c_showAdvanced f \<and>
    (parseInt (c_mParam f) = None \<or>
     parseInt (c_mParam f) = Some m \<and> (m < 4 \<or> 64 < m) \<or> c_mParam f = ''3'') \<longrightarrow>
      create_calls (create_handleSubmit api f) = [] \<and>
      create_error (create_handleSubmit api f) =
        Some (Text ''M parameter must be between 4 and 64'')) \<and>
   (trim (c_name f) \<noteq> [] \<and> c_dimension f \<noteq> [] \<and>
    parseInt (c_dimension f) = Some d \<and> 0 < d \<and>
    (c_isHybrid f \<longrightarrow>
       c_sparseDimension f \<noteq> [] \<and> parseInt (c_sparseDimension f) = Some sd \<and> 0 < sd) \<and>
    c_showAdvanced f \<and> c_mParam f = ''16'' \<and> c_efConstruction f = ''128'' \<longrightarrow>
      map (\<lambda>c. (o_M (cc_options c), o_ef_con (cc_options c)))
        (create_calls (create_handleSubmit api f)) = [(Some (Some 16), Some (Some 128))])"
proof (intro conjI impI)
  assume a: "trim (c_name f) = [] \<or>
    c_dimension f = [] \<or> parseInt (c_dimension f) = None \<or>
    parseInt (c_dimension f) = Some d \<and> d \<le> 0 \<or>
    c_isHybrid f \<and>
      (c_sparseDimension f = [] \<or> parseInt (c_sparseDimension f) = None \<or>
       parseInt (c_sparseDimension f) = Some sd \<and> sd \<le> 0) \<or>
    c_showAdvanced f \<and>
      (parseInt (c_mParam f) = None \<or>
       parseInt (c_mParam f) = Some m \<and> (m < 4 \<or> 64 < m)) \<or>
    c_showAdvanced f \<and>
      (parseInt (c_efConstruction f) = None \<or>
       parseInt (c_efConstruction f) = Some ec \<and> (ec < 64 \<or> 512 < ec))"
  note r = create_rejected [OF a, of api]
  from r show "create_calls (create_handleSubmit api f) = []" by blast
  from r show "create_error (create_handleSubmit api f) \<noteq> None" by blast
  from r show "\<not> navigated (create_handleSubmit api f)" by blast
next
  assume "trim (c_name f) \<noteq> [] \<and> c_dimension f \<noteq> [] \<and>
    parseInt (c_dimension f) = Some d \<and> 0 < d \<and>
    (c_isHybrid f \<longrightarrow>
       c_sparseDimension f \<noteq> [] \<and> parseInt (c_sparseDimension f) = Some sd \<and> 0 < sd) \<and>
    (c_showAdvanced f \<longrightarrow>
       parseInt (c_mParam f) = Some m \<and> 4 \<le> m \<and> m \<le> 64 \<and>
       parseInt (c_efConstruction f) = Some ec \<and> 64 \<le> ec \<and> ec \<le> 512)"
  then show "create_calls (create_handleSubmit api f) =
        [\<lparr>cc_indexName = trim (c_name f), cc_dimension = Some d,
          cc_spaceType = c_spaceType f,
          cc_options = \<lparr>o_precision = c_precision f,
            o_sparse_dim = (if c_isHybrid f then Some (Some sd) else None),
            o_M = (if c_showAdvanced f then Some (Some m) else None),
            o_ef_con = (if c_showAdvanced f then Some (Some ec) else None)\<rparr>\<rparr>]"
    by (intro create_accepted) blast+
next
  assume a: "trim (c_name f) \<noteq> [] \<and> c_dimension f \<noteq> [] \<and>
    parseInt (c_dimension f) = Some d \<and> 0 < d \<and>
    (c_isHybrid f \<longrightarrow>
       c_sparseDimension f \<noteq> [] \<and> parseInt (c_sparseDimension f) = Some sd \<and> 0 < sd) \<and>
    c_showAdvanced f \<and>
    (parseInt (c_mParam f) = None \<or>
     parseInt (c_mParam f) = Some m \<and> (m < 4 \<or> 64 < m) \<or> c_mParam f = ''3'')"
  then have bad: "parseInt (c_mParam f) = None \<or>
      (\<exists>v. parseInt (c_mParam f) = Some v \<and> (v < 4 \<or> 64 < v))"
    using m_examples(1) by auto
  then obtain v where bad': "parseInt (c_mParam f) = None \<or>
      parseInt (c_mParam f) = Some v \<and> (v < 4 \<or> 64 < v)"
    by blast
  from a have adv: "c_showAdvanced f" by blast
  from bad' adv have "c_showAdvanced f \<and>
      (parseInt (c_mParam f) = None \<or>
       parseInt (c_mParam f) = Some v \<and> (v < 4 \<or> 64 < v))"
    by blast
  then have "create_calls (create_handleSubmit api f) = [] \<and>
         create_error (create_handleSubmit api f) \<noteq> None \<and>
         \<not> navigated (create_handleSubmit api f)"
    by (intro create_rejected [where m = v]) blast
  then show "create_calls (create_handleSubmit api f) = []" by blast
  from a bad' show "create_error (create_handleSubmit api f) =
        Some (Text ''M parameter must be between 4 and 64'')"
    by (intro create_messages(1) [where m = v and d = d and sd = sd]) blast+
next
  assume a: "trim (c_name f) \<noteq> [] \<and> c_dimension f \<noteq> [] \<and>
    parseInt (c_dimension f) = Some d \<and> 0 < d \<and>
    (c_isHybrid f \<longrightarrow>
       c_sparseDimension f \<noteq> [] \<and> parseInt (c_sparseDimension f) = Some sd \<and> 0 < sd) \<and>
    c_showAdvanced f \<and> c_mParam f = ''16'' \<and> c_efConstruction f = ''128''"
  then have "create_calls (create_handleSubmit api f) =
        [\<lparr>cc_indexName = trim (c_name f), cc_dimension = Some d,
          cc_spaceType = c_spaceType f,
          cc_options = \<lparr>o_precision = c_precision f,
            o_sparse_dim = (if c_isHybrid f then Some (Some sd) else None),
            o_M = (if c_showAdvanced f then Some (Some 16) else None),
            o_ef_con = (if c_showAdvanced f then Some (Some 128) else None)\<rparr>\<rparr>]"
    by (intro create_accepted) (auto simp: m_examples)
  with a show "map (\<lambda>c. (o_M (cc_options c), o_ef_con (cc_options c)))
        (create_calls (create_handleSubmit api f)) = [(Some (Some 16), Some (Some 128))]"
    by simp
qed

theorem create_index_validation_witness:
  "create_calls
     (create_handleSubmit (\<lambda>c. \<lparr>success = True, data = None, error = None\<rparr>)
        \<lparr>c_name = ''idx'', c_spaceType = ''cosine'', c_dimension = ''0'',
         c_precision = ''float16'', c_isHybrid = False, c_sparseDimension = [],
         c_showAdvanced = False, c_mParam = ''16'', c_efConstruction = ''128''\<rparr>) = [] \<and>
   create_error
     (create_handleSubmit (\<lambda>c. \<lparr>success = True, data = None, error = None\<rparr>)
        \<lparr>c_name = ''idx'', c_spaceType = ''cosine'', c_dimension = ''768'',
         c_precision = ''float16'', c_isHybrid = False, c_sparseDimension = [],
         c_showAdvanced = True, c_mParam = ''3'', c_efConstruction = ''128''\<rparr>) =
     Some (Text ''M parameter must be between 4 and 64'') \<and>
   create_calls
     (create_handleSubmit (\<lambda>c. \<lparr>success = True, data = None, error = None\<rparr>)
        \<lparr>c_name = ''idx'', c_spaceType = ''cosine'', c_dimension = ''768'',
         c_precision = ''float16'', c_isHybrid = True, c_sparseDimension = ''30000'',
         c_showAdvanced = True, c_mParam = ''16'', c_efConstruction = ''128''\<rparr>) =
     [\<lparr>cc_indexName = ''idx'', cc_dimension = Some 768, cc_spaceType = ''cosine'',
       cc_options = \<lparr>o_precision = ''float16'', o_sparse_dim = Some (Some 30000),
                      o_M = Some (Some 16), o_ef_con = Some (Some 128)\<rparr>\<rparr>]"
proof -
  let ?api = "\<lambda>c::create_call. \<lparr>success = True, data = None::unit option, error = None\<rparr>"
  let ?f0 = "\<lparr>c_name = ''idx'', c_spaceType = ''cosine'', c_dimension = ''0'',
         c_precision = ''float16'', c_isHybrid = False, c_sparseDimension = [],
         c_showAdvanced = False, c_mParam = ''16'', c_efConstruction = ''128''\<rparr>"
  let ?f3 = "\<lparr>c_name = ''idx'', c_spaceType = ''cosine'', c_dimension = ''768'',
         c_precision = ''float16'', c_isHybrid = False, c_sparseDimension = [],
         c_showAdvanced = True, c_mParam = ''3'', c_efConstruction = ''128''\<rparr>"
  let ?f16 = "\<lparr>c_name = ''idx'', c_spaceType = ''cosine'', c_dimension = ''768'',
         c_precision = ''float16'', c_isHybrid = True, c_sparseDimension = ''30000'',
         c_showAdvanced = True, c_mParam = ''16'', c_efConstruction = ''128''\<rparr>"
  have name: "trim ''idx'' = ''idx''" and dim0: "parseInt ''0'' = Some 0"
    and dim768: "parseInt ''768'' = Some 768" and sp: "parseInt ''30000'' = Some 30000"
    by code_simp+
  have r0: "create_calls (create_handleSubmit ?api ?f0) = []"
    using create_index_validation
      [where f = ?f0 and api = ?api and d = 0, THEN conjunct1, THEN mp]
    by (simp add: dim0)
  have r3: "create_error (create_handleSubmit ?api ?f3) =
      Some (Text ''M parameter must be between 4 and 64'')"
    using create_index_validation
      [where f = ?f3 and api = ?api and d = 768,
       THEN conjunct2, THEN conjunct2, THEN conjunct1, THEN mp]
    by (simp add: name dim768)
  have r16: "create_calls (create_handleSubmit ?api ?f16) =
     [\<lparr>cc_indexName = ''idx'', cc_dimension = Some 768, cc_spaceType = ''cosine'',
       cc_options = \<lparr>o_precision = ''float16'', o_sparse_dim = Some (Some 30000),
                      o_M = Some (Some 16), o_ef_con = Some (Some 128)\<rparr>\<rparr>]"
    using create_index_validation
      [where f = ?f16 and api = ?api and d = 768 and sd = 30000 and m = 16 and ec = 128,
       THEN conjunct2, THEN conjunct1, THEN mp]
    by (simp add: name dim768 sp m_examples)
  show ?thesis
    by (intro conjI r0 r3 r16)
qed

text \<open>
  As first stated, for every dimension that is not a positive integer and every M outside
  4 to 64, the property fails: the dimension 7.9 and the M 64.9 are not rejected; they are
  read as 7 and 64, and the form is sent with these.
\<close>

theorem create_index_fraction_counterexample:
  "create_handleSubmit (\<lambda>c. \<lparr>success = True, data = None, error = None\<rparr>)
     \<lparr>c_name = ''idx'', c_spaceType = ''cosine'', c_dimension = ''7.9'',
      c_precision = ''float16'', c_isHybrid = False, c_sparseDimension = [],
      c_showAdvanced = True, c_mParam = ''64.9'', c_efConstruction = ''128''\<rparr> =
   \<lparr>create_calls =
      [\<lparr>cc_indexName = ''idx'', cc_dimension = Some 7, cc_spaceType = ''cosine'',
        cc_options = \<lparr>o_precision = ''float16'', o_sparse_dim = None,
                       o_M = Some (Some 64), o_ef_con = Some (Some 128)\<rparr>\<rparr>],
    create_error = None, navigated = True\<rparr>"
  by code_simp

section \<open>Vector insert: the count reported\<close>

lemma insertVectors_count:
  assumes "getIndex client n = None" and "upsert client n vs = Inr result"
  shows "insertVectors client cb n vs a =
           (\<lparr>success = True, data = Some \<lparr>ins_success = True, inserted = length vs\<rparr>,
             error = None\<rparr>, a, [GetIndex n, Upsert n vs])"
  using assms by (simp add: insertVectors_def)

lemma handleSubmit_banner:
  assumes "n \<noteq> []" and "parsedVectors h rows = Inr parsed" and "success (api n parsed)"
  shows "insert_success (fst (handleSubmit api n h rows)) =
           Some (Text (''Successfully inserted '' @ show_nat (length parsed) @ '' vector(s)''))"
    and "insert_calls (fst (handleSubmit api n h rows)) = [(n, parsed)]"
  using assms by (simp_all add: handleSubmit_def)

text \<open>
  Claim C10. When getIndex and upsert do not throw, the adapter's insertVectors answers
  success with inserted equal to the length of the list it was given, whatever upsert
  returned. When the rows of the form parse to a batch and the adapter answers success,
  the banner of the insert page is Successfully inserted N vector(s) with N the length of
  the parsed batch, whatever data the response carries.
\<close>

theorem inserted_count_is_batch_length:
  "(getIndex client n = None \<and> upsert client n vs = Inr result \<longrightarrow>
      fst (insertVectors client cb n vs a) =
        \<lparr>success = True, data = Some \<lparr>ins_success = True, inserted = length vs\<rparr>,
         error = None\<rparr>) \<and>
   (n \<noteq> [] \<and> parsedVectors h rows = Inr parsed \<and> success (api n parsed) \<longrightarrow>
      insert_success (fst (handleSubmit api n h rows)) =
        Some (Text (''Successfully inserted '' @ show_nat (length parsed) @ '' vector(s)'')))"
  by (simp add: insertVectors_count handleSubmit_banner(1))

theorem inserted_count_is_batch_length_witness:
  "fst (insertVectors \<lparr>getIndex = (\<lambda>n. None), upsert = (\<lambda>n vs. Inr (7::nat))\<rparr> None ''idx''
          [''a'', ''b'', ''c''] \<lparr>token = None, showAuthModal = False\<rparr>) =
     \<lparr>success = True, data = Some \<lparr>ins_success = True, inserted = 3\<rparr>, error = None\<rparr> \<and>
   insert_success
     (fst (handleSubmit
        (\<lambda>n vs. \<lparr>success = True, data = Some \<lparr>ins_success = True, inserted = 99\<rparr>,
                  error = None\<rparr>)
        ''idx'' False
        [\<lparr>in_id = ''v1'', in_vector = ''0.1, 0.2'', in_sparse_indices = [],
          in_sparse_values = [], in_meta = [], in_filter = []\<rparr>])) =
     Some (Text ''Successfully inserted 1 vector(s)'')"
proof -
  let ?client = "\<lparr>getIndex = (\<lambda>n::string. None),
                   upsert = (\<lambda>(n::string) (vs::string list). Inr (7::nat))\<rparr>"
  let ?api = "\<lambda>(n::string) (vs::vector_item list).
                \<lparr>success = True, data = Some \<lparr>ins_success = True, inserted = 99\<rparr>,
                 error = None\<rparr>"
  let ?rows = "[\<lparr>in_id = ''v1'', in_vector = ''0.1, 0.2'', in_sparse_indices = [],
                 in_sparse_values = [], in_meta = [], in_filter = []\<rparr>]"
  let ?parsed = "[\<lparr>item_id = ''v1'', item_vector = [JNumber ''0.1'', JNumber ''0.2''],
                   item_sparseIndices = None, item_sparseValues = None,
                   item_meta = None, item_filter = None\<rparr>]"
  have parsed: "parsedVectors False ?rows = Inr ?parsed"
    by code_simp
  have one: "show_nat (length ?parsed) = ''1''"
    by code_simp
  note t = inserted_count_is_batch_length
    [where client = ?client and n = "''idx''" and vs = "[''a'', ''b'', ''c'']" and result = 7
       and cb = None and a = "\<lparr>token = None, showAuthModal = False\<rparr>"
       and h = False and rows = ?rows and parsed = ?parsed and api = ?api]
  have a: "fst (insertVectors ?client None ''idx'' [''a'', ''b'', ''c'']
                  \<lparr>token = None, showAuthModal = False\<rparr>) =
     \<lparr>success = True, data = Some \<lparr>ins_success = True, inserted = 3\<rparr>, error = None\<rparr>"
    using t [THEN conjunct1] by simp
  have b: "insert_success (fst (handleSubmit ?api ''idx'' False ?rows)) =
     Some (Text ''Successfully inserted 1 vector(s)'')"
    using t [THEN conjunct2] parsed one by simp
  show ?thesis
    by (intro conjI a b)
qed

section \<open>API client adapter: failures\<close>

lemma includes_str_sublist: "includes_str s sub = sublist sub s"
  by (induction s) (simp_all add: sublist_Cons_right)

lemma handleApiError_response:
  "fst (handleApiError onU e a) =
     \<lparr>success = False, data = None,
      error = Some (case e of Error m \<Rightarrow> m | NonError \<Rightarrow> ''Unknown error'')\<rparr>"
  by (simp add: handleApiError_def)

lemma handleApiError_state:
  "snd (handleApiError onU e a) =
     (if isUnauthorizedError e then (case onU of None \<Rightarrow> a | Some cb \<Rightarrow> cb a) else a)"
  by (simp add: handleApiError_def)

lemma handleUnauthorized_clears:
  "token (handleUnauthorized a) = None"
  "showAuthModal (handleUnauthorized a)"
  "stored_token (handleUnauthorized a) = None"
  by (simp_all add: handleUnauthorized_def stored_token_def truthy_def)

lemma insertVectors_getIndex_throws:
  assumes "getIndex client n = Some e"
  shows "insertVectors client onU n vs a =
           (case handleApiError onU e a of (r, a') \<Rightarrow> (r, a', [GetIndex n]))"
  using assms by (simp add: insertVectors_def case_prod_beta)

lemma insertVectors_upsert_throws:
  assumes "getIndex client n = None" and "upsert client n vs = Inl e"
  shows "insertVectors client onU n vs a =
           (case handleApiError onU e a of (r, a') \<Rightarrow> (r, a', [GetIndex n, Upsert n vs]))"
  using assms by (simp add: insertVectors_def case_prod_beta)

text \<open>
  Claim C8. An error the client throws is taken for an authorization failure exactly when
  its message, in lower case, has 401 or invalid token as a substring; what is thrown and
  is not an Error is never taken for one. Whatever is thrown, the adapter answers
  success = false with the message (Unknown error for what is not an Error). The
  registered callback runs exactly when the failure is an authorization failure; the
  callback the application registers leaves no token, in the state or in the storage, and
  the prompt open. A failing insertVectors has called getIndex once, and upsert once if
  getIndex did not throw: nothing is tried again.
\<close>

theorem adapter_failure_handling:
  "isUnauthorizedError (Error m) =
     (sublist ''401'' (toLowerCase m) \<or> sublist ''invalid token'' (toLowerCase m)) \<and>
   \<not> isUnauthorizedError NonError \<and>
   fst (handleApiError onU e a) =
     \<lparr>success = False, data = None,
      error = Some (case e of Error m \<Rightarrow> m | NonError \<Rightarrow> ''Unknown error'')\<rparr> \<and>
   snd (handleApiError (Some cb) e a) = (if isUnauthorizedError e then cb a else a) \<and>
   (isUnauthorizedError e \<longrightarrow>
      token (snd (handleApiError (Some handleUnauthorized) e a)) = None \<and>
      stored_token (snd (handleApiError (Some handleUnauthorized) e a)) = None \<and>
      showAuthModal (snd (handleApiError (Some handleUnauthorized) e a))) \<and>
   (getIndex client n = Some e \<longrightarrow>
      insertVectors client onU n vs a =
        (case handleApiError onU e a of (r, a') \<Rightarrow> (r, a', [GetIndex n]))) \<and>
   (getIndex client n = None \<and> upsert client n vs = Inl e \<longrightarrow>
      insertVectors client onU n vs a =
        (case handleApiError onU e a of (r, a') \<Rightarrow> (r, a', [GetIndex n, Upsert n vs])))"
proof (intro conjI impI)
  show "isUnauthorizedError (Error m) =
     (sublist ''401'' (toLowerCase m) \<or> sublist ''invalid token'' (toLowerCase m))"
    by (simp add: isUnauthorizedError_def includes_str_sublist Let_def)
  show "\<not> isUnauthorizedError NonError"
    by (simp add: isUnauthorizedError_def)
  show "fst (handleApiError onU e a) =
     \<lparr>success = False, data = None,
      error = Some (case e of Error m \<Rightarrow> m | NonError \<Rightarrow> ''Unknown error'')\<rparr>"
    by (rule handleApiError_response)
  show "snd (handleApiError (Some cb) e a) = (if isUnauthorizedError e then cb a else a)"
    by (simp add: handleApiError_state)
next
  assume u: "isUnauthorizedError e"
  then show "token (snd (handleApiError (Some handleUnauthorized) e a)) = None"
    and "stored_token (snd (handleApiError (Some handleUnauthorized) e a)) = None"
    and "showAuthModal (snd (handleApiError (Some handleUnauthorized) e a))"
    by (simp_all add: handleApiError_state handleUnauthorized_clears)
next
  assume "getIndex client n = Some e"
  then show "insertVectors client onU n vs a =
        (case handleApiError onU e a of (r, a') \<Rightarrow> (r, a', [GetIndex n]))"
    by (rule insertVectors_getIndex_throws)
next
  assume "getIndex client n = None \<and> upsert client n vs = Inl e"
  then show "insertVectors client onU n vs a =
        (case handleApiError onU e a of (r, a') \<Rightarrow> (r, a', [GetIndex n, Upsert n vs]))"
    by (intro insertVectors_upsert_throws) simp_all
qed

theorem adapter_failure_handling_witness:
  "isUnauthorizedError (Error ''HTTP 401 Unauthorized'') \<and>
   token (snd (handleApiError (Some handleUnauthorized) (Error ''HTTP 401 Unauthorized'')
                 \<lparr>token = Some ''tok'', showAuthModal = False\<rparr>)) = None \<and>
   showAuthModal (snd (handleApiError (Some handleUnauthorized) (Error ''HTTP 401 Unauthorized'')
                 \<lparr>token = Some ''tok'', showAuthModal = False\<rparr>)) \<and>
   insertVectors \<lparr>getIndex = (\<lambda>n. Some (Error ''Index not found'')), upsert = (\<lambda>n vs. Inr ())\<rparr>
       (Some handleUnauthorized) ''idx'' [''v''] \<lparr>token = Some ''tok'', showAuthModal = False\<rparr> =
     (\<lparr>success = False, data = None, error = Some ''Index not found''\<rparr>,
      \<lparr>token = Some ''tok'', showAuthModal = False\<rparr>, [GetIndex ''idx'']) \<and>
   insertVectors \<lparr>getIndex = (\<lambda>n. None), upsert = (\<lambda>n vs. Inl (Error ''Invalid Token'') :: thrown + unit)\<rparr>
       (Some handleUnauthorized) ''idx'' [''v''] \<lparr>token = Some ''tok'', showAuthModal = False\<rparr> =
     (\<lparr>success = False, data = None, error = Some ''Invalid Token''\<rparr>,
      \<lparr>token = None, showAuthModal = True\<rparr>, [GetIndex ''idx'', Upsert ''idx'' [''v'']])"
proof -
  let ?a = "\<lparr>token = Some ''tok'', showAuthModal = False\<rparr>"
  let ?c1 = "\<lparr>getIndex = (\<lambda>n::string. Some (Error ''Index not found'')),
               upsert = (\<lambda>(n::string) (vs::string list). Inr ())\<rparr>"
  let ?c2 = "\<lparr>getIndex = (\<lambda>n::string. None),
               upsert = (\<lambda>(n::string) (vs::string list). Inl (Error ''Invalid Token'') :: thrown + unit)\<rparr>"
  have u1: "isUnauthorizedError (Error ''HTTP 401 Unauthorized'')"
    and u2: "\<not> isUnauthorizedError (Error ''Index not found'')"
    and u3: "isUnauthorizedError (Error ''Invalid Token'')"
    by code_simp+
  note t1 = adapter_failure_handling
    [where e = "Error ''HTTP 401 Unauthorized''" and a = ?a]
  have s: "token (snd (handleApiError (Some handleUnauthorized) (Error ''HTTP 401 Unauthorized'') ?a)) = None \<and>
           showAuthModal (snd (handleApiError (Some handleUnauthorized) (Error ''HTTP 401 Unauthorized'') ?a))"
    using t1 [THEN conjunct2, THEN conjunct2, THEN conjunct2, THEN conjunct2, THEN conjunct1,
      THEN mp, OF u1]
    by blast
  note s1 = s [THEN conjunct1] and s2 = s [THEN conjunct2]
  have g: "insertVectors ?c1 (Some handleUnauthorized) ''idx'' [''v''] ?a =
     (\<lparr>success = False, data = None, error = Some ''Index not found''\<rparr>, ?a, [GetIndex ''idx''])"
    using adapter_failure_handling
      [where e = "Error ''Index not found''" and a = ?a and client = ?c1 and n = "''idx''"
         and onU = "Some handleUnauthorized" and vs = "[''v'']",
       THEN conjunct2, THEN conjunct2, THEN conjunct2, THEN conjunct2, THEN conjunct2,
       THEN conjunct1, THEN mp]
    by (simp add: handleApiError_def u2)
  have p: "insertVectors ?c2 (Some handleUnauthorized) ''idx'' [''v''] ?a =
     (\<lparr>success = False, data = None, error = Some ''Invalid Token''\<rparr>,
      \<lparr>token = None, showAuthModal = True\<rparr>, [GetIndex ''idx'', Upsert ''idx'' [''v'']])"
    using adapter_failure_handling
      [where e = "Error ''Invalid Token''" and a = ?a and client = ?c2 and n = "''idx''"
         and onU = "Some handleUnauthorized" and vs = "[''v'']",
       THEN conjunct2, THEN conjunct2, THEN conjunct2, THEN conjunct2, THEN conjunct2,
       THEN conjunct2, THEN mp]
    by (simp add: handleApiError_def handleUnauthorized_def u3)
  show ?thesis
    by (intro conjI u1 s1 s2 g p)
qed

section \<open>Backups page: polling while a job is in progress\<close>

lemma hasInProgress_iff: "hasInProgress js = (in_progress \<in> set (map job_status js))"
  by (force simp add: hasInProgress_def list_ex_iff)

lemma poll_run_snoc: "poll_run (evs @ [e]) = poll_step (poll_run evs) e"
  by (simp add: poll_run_def)

lemma poll_run_append: "poll_run (evs @ later) = foldl poll_step (poll_run evs) later"
  by (simp add: poll_run_def)

lemma interval_follows_jobs: "interval (poll_run evs) = polling_effect (jobs (poll_run evs))"
proof (induction evs rule: rev_induct)
  case Nil
  show ?case by (simp add: poll_run_def mounted_def)
next
  case (snoc e evs)
  show ?case
  proof (cases e)
    case (SetJobs js)
    then show ?thesis by (simp add: poll_run_snoc)
  next
    case Elapsed
    with snoc show ?thesis by (simp add: poll_run_snoc split: option.splits)
  qed
qed

lemma quiet_keeps_still:
  assumes "interval s = None" and "list_all quiet later"
  shows "refreshes (foldl poll_step s later) = refreshes s \<and>
         interval (foldl poll_step s later) = None"
  using assms
proof (induction later arbitrary: s)
  case Nil
  then show ?case by simp
next
  case (Cons e later)
  from Cons.prems have still: "interval (poll_step s e) = None"
    and same: "refreshes (poll_step s e) = refreshes s"
    by (cases e; simp add: quiet_def polling_effect_def)+
  from Cons.prems have "list_all quiet later" by simp
  from Cons.IH [OF still this] same show ?case by simp
qed

lemma quiet_iff:
  "quiet = (\<lambda>e. case e of SetJobs js \<Rightarrow> in_progress \<notin> set (map job_status js)
                    | Elapsed \<Rightarrow> True)"
  by (rule ext) (simp add: quiet_def hasInProgress_iff split: poll_event.splits)

lemma busy_keeps_firing:
  assumes "interval s \<noteq> None"
  shows "refreshes (foldl poll_step s (replicate k Elapsed)) = refreshes s + k \<and>
         interval (foldl poll_step s (replicate k Elapsed)) = interval s"
  using assms
proof (induction k arbitrary: s)
  case 0
  show ?case by simp
next
  case (Suc k)
  from Suc.prems obtain p where p: "interval s = Some p" by auto
  then have step: "interval (poll_step s Elapsed) = interval s"
    "refreshes (poll_step s Elapsed) = Suc (refreshes s)"
    by simp_all
  with Suc.prems have "interval (poll_step s Elapsed) \<noteq> None" by simp
  from Suc.IH [OF this] step show ?case by simp
qed

text \<open>
  Claim C9. The page mounts with no job, no interval and no refresh fired. A new list of
  jobs becomes the current list, and the effect then sets an interval, of 5000
  milliseconds, exactly when a job of this list is in progress; it fires nothing by
  itself. When the period passes, the list and the interval stay as they are, and a
  refresh is fired exactly when a job of the current list is in progress. So in every
  state the page reaches the interval is set exactly when a job of the current list is in
  progress; while one is, each passing of the period fires one more refresh; and from a
  state whose list has no job in progress, no refresh is fired for as long as no list with
  a job in progress arrives.
\<close>

theorem polling_iff_in_progress:
  "poll_run [] = \<lparr>jobs = [], interval = None, refreshes = 0\<rparr> \<and>
   poll_run (evs @ [SetJobs js]) =
     \<lparr>jobs = js,
      interval = (if in_progress \<in> set (map job_status js) then Some 5000 else None),
      refreshes = refreshes (poll_run evs)\<rparr> \<and>
   poll_run (evs @ [Elapsed]) =
     \<lparr>jobs = jobs (poll_run evs), interval = interval (poll_run evs),
      refreshes =
        (if in_progress \<in> set (map job_status (jobs (poll_run evs)))
         then Suc (refreshes (poll_run evs)) else refreshes (poll_run evs))\<rparr> \<and>
   interval (poll_run evs) =
     (if in_progress \<in> set (map job_status (jobs (poll_run evs))) then Some 5000 else None) \<and>
   polling_effect js = (if in_progress \<in> set (map job_status js) then Some 5000 else None) \<and>
   (in_progress \<in> set (map job_status (jobs (poll_run evs))) \<longrightarrow>
      refreshes (poll_run (evs @ replicate k Elapsed)) = refreshes (poll_run evs) + k) \<and>
   (in_progress \<notin> set (map job_status (jobs (poll_run evs))) \<and>
    list_all (\<lambda>e. case e of SetJobs js \<Rightarrow> in_progress \<notin> set (map job_status js)
                      | Elapsed \<Rightarrow> True) later \<longrightarrow>
      refreshes (poll_run (evs @ later)) = refreshes (poll_run evs))"
proof (intro conjI impI)
  have eff: "polling_effect xs = (if in_progress \<in> set (map job_status xs) then Some 5000 else None)"
    for xs
    by (simp add: polling_effect_def hasInProgress_iff)
  have inv: "interval (poll_run evs) =
     (if in_progress \<in> set (map job_status (jobs (poll_run evs))) then Some 5000 else None)"
    using interval_follows_jobs [of evs] by (simp only: eff)
  show "poll_run [] = \<lparr>jobs = [], interval = None, refreshes = 0\<rparr>"
    by (simp add: poll_run_def mounted_def polling_effect_def hasInProgress_def)
  show "poll_run (evs @ [SetJobs js]) =
     \<lparr>jobs = js,
      interval = (if in_progress \<in> set (map job_status js) then Some 5000 else None),
      refreshes = refreshes (poll_run evs)\<rparr>"
    by (cases "poll_run evs") (simp add: poll_run_snoc eff)
  show "poll_run (evs @ [Elapsed]) =
     \<lparr>jobs = jobs (poll_run evs), interval = interval (poll_run evs),
      refreshes =
        (if in_progress \<in> set (map job_status (jobs (poll_run evs)))
         then Suc (refreshes (poll_run evs)) else refreshes (poll_run evs))\<rparr>"
    using inv by (cases "poll_run evs") (simp add: poll_run_snoc split: if_splits)
  show "interval (poll_run evs) =
     (if in_progress \<in> set (map job_status (jobs (poll_run evs))) then Some 5000 else None)"
    by (rule inv)
  show "polling_effect js = (if in_progress \<in> set (map job_status js) then Some 5000 else None)"
    by (rule eff)
  show "refreshes (poll_run (evs @ replicate k Elapsed)) = refreshes (poll_run evs) + k"
    if "in_progress \<in> set (map job_status (jobs (poll_run evs)))"
  proof -
    from that inv have "interval (poll_run evs) \<noteq> None" by simp
    from busy_keeps_firing [OF this, of k] show ?thesis
      by (simp add: poll_run_append)
  qed
  show "refreshes (poll_run (evs @ later)) = refreshes (poll_run evs)"
    if a: "in_progress \<notin> set (map job_status (jobs (poll_run evs))) \<and>
      list_all (\<lambda>e. case e of SetJobs js \<Rightarrow> in_progress \<notin> set (map job_status js)
                      | Elapsed \<Rightarrow> True) later"
  proof -
    from a inv have none: "interval (poll_run evs) = None" by simp
    from a have "list_all quiet later" by (simp only: quiet_iff)
    from quiet_keeps_still [OF none this] show ?thesis
      by (simp add: poll_run_append)
  qed
qed

theorem polling_iff_in_progress_witness:
  "poll_run
     [SetJobs [\<lparr>job_id = ''1'', index_id = ''idx'', backup_name = ''b1'',
                job_status = in_progress, started_at = 20\<rparr>,
               \<lparr>job_id = ''2'', index_id = ''idx'', backup_name = ''b2'',
                job_status = in_progress, started_at = 10\<rparr>]] =
     \<lparr>jobs = [\<lparr>job_id = ''1'', index_id = ''idx'', backup_name = ''b1'',
                job_status = in_progress, started_at = 20\<rparr>,
               \<lparr>job_id = ''2'', index_id = ''idx'', backup_name = ''b2'',
                job_status = in_progress, started_at = 10\<rparr>],
      interval = Some 5000, refreshes = 0\<rparr> \<and>
   refreshes (poll_run
     ([SetJobs [\<lparr>job_id = ''1'', index_id = ''idx'', backup_name = ''b1'',
                 job_status = in_progress, started_at = 20\<rparr>,
                \<lparr>job_id = ''2'', index_id = ''idx'', backup_name = ''b2'',
                 job_status = in_progress, started_at = 10\<rparr>]]
      @ replicate 3 Elapsed)) = 3 \<and>
   poll_run
     ([SetJobs [\<lparr>job_id = ''1'', index_id = ''idx'', backup_name = ''b1'',
                 job_status = in_progress, started_at = 20\<rparr>,
                \<lparr>job_id = ''2'', index_id = ''idx'', backup_name = ''b2'',
                 job_status = in_progress, started_at = 10\<rparr>],
       Elapsed]
      @ [SetJobs [\<lparr>job_id = ''1'', index_id = ''idx'', backup_name = ''b1'',
                   job_status = completed, started_at = 20\<rparr>,
                  \<lparr>job_id = ''2'', index_id = ''idx'', backup_name = ''b2'',
                   job_status = failed, started_at = 10\<rparr>]]) =
     \<lparr>jobs = [\<lparr>job_id = ''1'', index_id = ''idx'', backup_name = ''b1'',
                job_status = completed, started_at = 20\<rparr>,
               \<lparr>job_id = ''2'', index_id = ''idx'', backup_name = ''b2'',
                job_status = failed, started_at = 10\<rparr>],
      interval = None, refreshes = 1\<rparr> \<and>
   refreshes (poll_run
     ([SetJobs [\<lparr>job_id = ''1'', index_id = ''idx'', backup_name = ''b1'',
                 job_status = in_progress, started_at = 20\<rparr>,
                \<lparr>job_id = ''2'', index_id = ''idx'', backup_name = ''b2'',
                 job_status = in_progress, started_at = 10\<rparr>],
       Elapsed,
       SetJobs [\<lparr>job_id = ''1'', index_id = ''idx'', backup_name = ''b1'',
                 job_status = completed, started_at = 20\<rparr>,
                \<lparr>job_id = ''2'', index_id = ''idx'', backup_name = ''b2'',
                 job_status = failed, started_at = 10\<rparr>]]
      @ [Elapsed, Elapsed])) = 1"
proof -
  let ?r1 = "\<lparr>job_id = ''1'', index_id = ''idx'', backup_name = ''b1'',
                job_status = in_progress, started_at = 20\<rparr>"
  let ?r2 = "\<lparr>job_id = ''2'', index_id = ''idx'', backup_name = ''b2'',
                job_status = in_progress, started_at = 10\<rparr>"
  let ?d1 = "\<lparr>job_id = ''1'', index_id = ''idx'', backup_name = ''b1'',
                job_status = completed, started_at = 20\<rparr>"
  let ?d2 = "\<lparr>job_id = ''2'', index_id = ''idx'', backup_name = ''b2'',
                job_status = failed, started_at = 10\<rparr>"
  note mount = polling_iff_in_progress [THEN conjunct1]
  have a: "poll_run [SetJobs [?r1, ?r2]] =
      \<lparr>jobs = [?r1, ?r2], interval = Some 5000, refreshes = 0\<rparr>"
    using polling_iff_in_progress [where evs = "[]" and js = "[?r1, ?r2]",
        THEN conjunct2, THEN conjunct1] mount
    by simp
  have b: "refreshes (poll_run ([SetJobs [?r1, ?r2]] @ replicate 3 Elapsed)) = 3"
    using polling_iff_in_progress [where evs = "[SetJobs [?r1, ?r2]]" and k = 3,
        THEN conjunct2, THEN conjunct2, THEN conjunct2, THEN conjunct2, THEN conjunct2,
        THEN conjunct1, THEN mp]
    by (simp only: a) simp
  have e: "poll_run ([SetJobs [?r1, ?r2]] @ [Elapsed]) =
      \<lparr>jobs = [?r1, ?r2], interval = Some 5000, refreshes = 1\<rparr>"
    using polling_iff_in_progress [where evs = "[SetJobs [?r1, ?r2]]",
        THEN conjunct2, THEN conjunct2, THEN conjunct1]
    by (simp only: a) simp
  have c: "poll_run ([SetJobs [?r1, ?r2], Elapsed] @ [SetJobs [?d1, ?d2]]) =
      \<lparr>jobs = [?d1, ?d2], interval = None, refreshes = 1\<rparr>"
    using polling_iff_in_progress [where evs = "[SetJobs [?r1, ?r2], Elapsed]"
        and js = "[?d1, ?d2]", THEN conjunct2, THEN conjunct1] e
    by simp
  have d: "refreshes (poll_run ([SetJobs [?r1, ?r2], Elapsed, SetJobs [?d1, ?d2]]
      @ [Elapsed, Elapsed])) = 1"
    using polling_iff_in_progress
      [where evs = "[SetJobs [?r1, ?r2], Elapsed, SetJobs [?d1, ?d2]]"
         and later = "[Elapsed, Elapsed]",
        THEN conjunct2, THEN conjunct2, THEN conjunct2, THEN conjunct2, THEN conjunct2,
        THEN conjunct2, THEN mp] c
    by simp
  show ?thesis
    by (intro conjI a b c d)
qed

section \<open>Raw fetch call sites: the Authorization header and the answer 401\<close>

lemma authorization_present:
  assumes "truthy t"
  shows "(''Authorization'', the t) \<in> set (authorization t)"
  using assms by (cases t) (simp_all add: truthy_def authorization_def)

lemma guarded_sites_send_token:
  assumes "truthy (token a)"
  shows "list_all (\<lambda>r. (''Authorization'', the (token a)) \<in> set (r_headers r))
           (requests (loadJobs fetch a))"
    and "list_all (\<lambda>r. (''Authorization'', the (token a)) \<in> set (r_headers r))
           (requests (loadBackups fetch a))"
    and "list_all (\<lambda>r. (''Authorization'', the (token a)) \<in> set (r_headers r))
           (requests (handleRestoreBackup fetch a b i))"
    and "list_all (\<lambda>r. (''Authorization'', the (token a)) \<in> set (r_headers r))
           (requests (handleDeleteBackup fetch a b))"
    and "list_all (\<lambda>r. (''Authorization'', the (token a)) \<in> set (r_headers r))
           (requests (modal_handleCreateBackup fetch a i b))"
    and "list_all (\<lambda>r. (''Authorization'', the (token a)) \<in> set (r_headers r))
           (requests (handleUploadBackup fetch a file))"
  using authorization_present [OF assms]
  by (simp_all add: loadJobs_def loadBackups_def handleRestoreBackup_def
      handleDeleteBackup_def modal_handleCreateBackup_def handleUploadBackup_def Let_def
      split: option.splits)

lemma not_ok_401: "status r = 401 \<Longrightarrow> \<not> ok r"
  by (simp add: ok_def)

lemma guarded_sites_on_401:
  assumes "\<And>rq. status (fetch rq) = 401"
  shows "auth (loadJobs fetch a) = handleUnauthorized a"
    and "auth (loadBackups fetch a) = handleUnauthorized a"
    and "b \<noteq> [] \<Longrightarrow> trim i \<noteq> [] \<Longrightarrow>
           auth (handleRestoreBackup fetch a b i) = handleUnauthorized a"
    and "b \<noteq> [] \<Longrightarrow> auth (handleDeleteBackup fetch a b) = handleUnauthorized a"
    and "i \<noteq> [] \<Longrightarrow> trim b \<noteq> [] \<Longrightarrow>
           auth (modal_handleCreateBackup fetch a i b) = handleUnauthorized a"
    and "auth (handleUploadBackup fetch a (Some file)) = handleUnauthorized a"
  using assms not_ok_401 [of "fetch _"]
  by (simp_all add: loadJobs_def loadBackups_def handleRestoreBackup_def
      handleDeleteBackup_def modal_handleCreateBackup_def handleUploadBackup_def Let_def)

text \<open>
  Claim C1. The claim asks of every raw fetch that it carry the Authorization header when a
  token is stored, and that the answer 401 clear the token and open the prompt. The call
  sites of the backups page and of the two modals do so (the two lemmas above). The
  create-backup fetch of the indexes page does not: with the token tok stored and the
  server answering 401, the request it sends has the content type as its only header, and
  afterwards the token is still stored and the prompt is still closed.
\<close>

theorem indexes_page_create_backup_unauthorized:
  "handleCreateBackup (\<lambda>rq. \<lparr>status = 401, body_error = None\<rparr>)
     \<lparr>token = Some ''tok'', showAuthModal = False\<rparr> ''idx'' ''b1'' =
   \<lparr>requests = [\<lparr>r_endpoint = CreateBackup ''idx'',
                  r_headers = [(''Content-Type'', ''application/json'')],
                  r_body = [(''name'', ''b1'')]\<rparr>],
    auth = \<lparr>token = Some ''tok'', showAuthModal = False\<rparr>,
    shown = Some (Text ''Failed to create backup'')\<rparr>"
  by code_simp

section \<open>JSON.parse on comma-separated numbers\<close>

lemma takeWhile_digit_safe: "safe r \<Longrightarrow> takeWhile is_digit r = []"
  by (cases r) (auto simp: safe_def is_digit_def)

lemma digits_append:
  assumes "dropWhile is_digit x \<noteq> [] \<or> safe r"
  shows "takeWhile is_digit (x @ r) = takeWhile is_digit x"
    and "dropWhile is_digit (x @ r) = dropWhile is_digit x @ r"
proof -
  show "takeWhile is_digit (x @ r) = takeWhile is_digit x"
  proof (cases "dropWhile is_digit x = []")
    case True
    then have all: "\<And>c. c \<in> set x \<Longrightarrow> is_digit c" by (simp add: dropWhile_eq_Nil_conv)
    from True assms have "safe r" by simp
    then have r: "takeWhile is_digit r = []" by (rule takeWhile_digit_safe)
    from all have x: "takeWhile is_digit x = x" by (simp add: takeWhile_eq_all_conv)
    from all have "takeWhile is_digit (x @ r) = x @ takeWhile is_digit r"
      by (simp add: takeWhile_append2)
    also have "\<dots> = x" by (simp add: r)
    finally show ?thesis by (simp only: x)
  next
    case False
    then obtain c where "c \<in> set x" "\<not> is_digit c" by (auto simp: dropWhile_eq_Nil_conv)
    then show ?thesis by (simp add: takeWhile_append1)
  qed
  show "dropWhile is_digit (x @ r) = dropWhile is_digit x @ r"
  proof (cases "dropWhile is_digit x = []")
    case True
    then have all: "\<And>c. c \<in> set x \<Longrightarrow> is_digit c" by (simp add: dropWhile_eq_Nil_conv)
    from True assms have "safe r" by simp
    then have "dropWhile is_digit r = r" by (cases r) (auto simp: safe_def is_digit_def)
    then show ?thesis using all True by (simp add: dropWhile_append2)
  next
    case False
    then obtain c where "c \<in> set x" "\<not> is_digit c" by (auto simp: dropWhile_eq_Nil_conv)
    then show ?thesis by (simp add: dropWhile_append1)
  qed
qed

lemma int_part_append:
  assumes "int_part x = Some y" and "y \<noteq> [] \<or> safe r"
  shows "int_part (x @ r) = Some (y @ r)"
proof -
  from assms(1) have y: "y = dropWhile is_digit x"
    by (auto simp: int_part_def split: list.splits if_splits)
  with assms(2) have "dropWhile is_digit x \<noteq> [] \<or> safe r" by simp
  note d = digits_append [OF this]
  from assms(1) show ?thesis
    by (auto simp: int_part_def d split: list.splits if_splits)
qed

lemma frac_part_append:
  assumes "frac_part x = Some y" and "y \<noteq> [] \<or> safe r"
  shows "frac_part (x @ r) = Some (y @ r)"
proof (cases x)
  case Nil
  with assms have "y = []" "safe r" by (auto simp: frac_part_def)
  then show ?thesis using Nil by (cases r) (auto simp: frac_part_def safe_def)
next
  case (Cons c x')
  show ?thesis
  proof (cases "c = CHR ''.''")
    case True
    with Cons assms(1) have y: "y = dropWhile is_digit x'" and ne: "takeWhile is_digit x' \<noteq> []"
      by (auto simp: frac_part_def split: if_splits)
    with assms(2) have "dropWhile is_digit x' \<noteq> [] \<or> safe r" by simp
    note d = digits_append [OF this]
    show ?thesis using Cons True y ne by (simp add: frac_part_def d)
  next
    case False
    with Cons assms(1) show ?thesis by (auto simp: frac_part_def)
  qed
qed

lemma exp_part_append:
  assumes "exp_part x = Some y" and "y \<noteq> [] \<or> safe r"
  shows "exp_part (x @ r) = Some (y @ r)"
proof (cases x)
  case Nil
  with assms have "y = []" "safe r" by (auto simp: exp_part_def)
  then show ?thesis using Nil by (cases r) (auto simp: exp_part_def safe_def)
next
  case (Cons c x')
  show ?thesis
  proof (cases "c = CHR ''e'' \<or> c = CHR ''E''")
    case True
    with Cons assms(1) have y: "y = dropWhile is_digit (opt_sign x')"
      and ne: "takeWhile is_digit (opt_sign x') \<noteq> []"
      by (auto simp: exp_part_def split: if_splits)
    from ne have "x' \<noteq> []" by (auto simp: opt_sign_def)
    then have s: "opt_sign (x' @ r) = opt_sign x' @ r"
      by (cases x') (auto simp: opt_sign_def)
    from y assms(2) have "dropWhile is_digit (opt_sign x') \<noteq> [] \<or> safe r" by simp
    note d = digits_append [OF this]
    show ?thesis using Cons True y ne by (auto simp add: exp_part_def d s)
  next
    case False
    with Cons assms(1) show ?thesis by (auto simp: exp_part_def)
  qed
qed

lemma scan_number_append:
  assumes "scan_number t = Some (lit, w)" and "w \<noteq> [] \<or> safe r"
  shows "scan_number (t @ r) = Some (lit, w @ r)"
proof -
  from assms(1) obtain y1 y2 where
    i: "int_part (opt_minus t) = Some y1" and f: "frac_part y1 = Some y2"
    and e: "exp_part y2 = Some w" and lit: "lit = take (length t - length w) t"
    by (auto simp: scan_number_def split: option.splits)
  from i have "opt_minus t \<noteq> []" by (auto simp: int_part_def)
  then have "t \<noteq> []" by (auto simp: opt_minus_def)
  then have m: "opt_minus (t @ r) = opt_minus t @ r"
    by (cases t) (auto simp: opt_minus_def)
  have y2: "y2 \<noteq> [] \<or> safe r"
    using e assms(2) by (auto simp: exp_part_def)
  have y1: "y1 \<noteq> [] \<or> safe r"
    using f y2 by (auto simp: frac_part_def)
  note int_part_append [OF i y1] frac_part_append [OF f y2] exp_part_append [OF e assms(2)]
  then show ?thesis
    using m lit by (simp add: scan_number_def)
qed


lemma scan_number_head:
  assumes "scan_number t = Some (lit, w)"
  obtains c t' where "t = c # t'" and "c = CHR ''-'' \<or> is_digit c"
proof -
  from assms obtain y1 where i: "int_part (opt_minus t) = Some y1"
    by (auto simp: scan_number_def split: option.splits)
  then have "takeWhile is_digit (opt_minus t) \<noteq> []"
    by (auto simp: int_part_def split: list.splits)
  then obtain d ds where o: "opt_minus t = d # ds" and d: "is_digit d"
    by (cases "opt_minus t") (auto split: if_splits)
  show thesis
  proof (cases t)
    case Nil
    with o show ?thesis by (simp add: opt_minus_def)
  next
    case (Cons c t')
    with o d have "c = CHR ''-'' \<or> is_digit c"
      by (auto simp: opt_minus_def split: if_splits)
    with Cons that show ?thesis by blast
  qed
qed

lemma skip_ws_append:
  assumes "skip_ws t \<noteq> []"
  shows "skip_ws (t @ r) = skip_ws t @ r"
proof -
  from assms obtain c where "c \<in> set t" "\<not> json_ws c"
    by (auto simp: skip_ws_def dropWhile_eq_Nil_conv)
  then show ?thesis by (simp add: skip_ws_def dropWhile_append1)
qed

lemma skip_ws_safe: "safe r \<Longrightarrow> skip_ws r = r"
  by (cases r) (auto simp: safe_def skip_ws_def json_ws_def)

lemma skip_ws_all:
  assumes "skip_ws w = []" and "safe r"
  shows "skip_ws (w @ r) = r"
proof -
  from assms(1) have "\<And>c. c \<in> set w \<Longrightarrow> json_ws c"
    by (simp add: skip_ws_def dropWhile_eq_Nil_conv)
  then have "dropWhile json_ws (w @ r) = dropWhile json_ws r"
    by (simp add: dropWhile_append2)
  with skip_ws_safe [OF assms(2)] show ?thesis by (simp add: skip_ws_def)
qed

lemma parse_value_number:
  assumes "json_number_token t" and "safe r"
  shows "\<exists>w. parse_value (Suc n) (t @ r) = Some (token_number t, w @ r) \<and> skip_ws w = []"
proof -
  from assms(1) obtain lit w where s: "scan_number (skip_ws t) = Some (lit, w)"
    and w: "skip_ws w = []"
    by (auto simp: json_number_token_def split: option.splits)
  from s obtain c t' where t': "skip_ws t = c # t'" and c: "c = CHR ''-'' \<or> is_digit c"
    by (rule scan_number_head)
  from t' have sk: "skip_ws (t @ r) = c # t' @ r"
    by (simp add: skip_ws_append)
  from c have nb: "c \<noteq> CHR ''[''" "c \<noteq> CHR ''{''" "c \<noteq> CHR 0x22"
    by (auto simp: is_digit_def)
  from scan_number_append [OF s, of r] assms(2) t'
  have "scan_number (c # t' @ r) = Some (lit, w @ r)" by simp
  with sk c nb have "parse_value (Suc n) (t @ r) = Some (JNumber lit, w @ r)"
    by (simp add: parse_scalar_def)
  with s w show ?thesis by (auto simp: token_number_def)
qed


lemma split_commas_nonempty: "split_commas S \<noteq> []"
  by (induction S) (auto split: list.splits)

lemma join_commas_Cons: "join_commas ((c # t) # ts) = c # join_commas (t # ts)"
  by (cases ts) simp_all

lemma join_split: "join_commas (split_commas S) = S"
proof (induction S)
  case Nil
  show ?case by simp
next
  case (Cons c S)
  obtain t ts where ts: "split_commas S = t # ts"
    using split_commas_nonempty [of S] by (cases "split_commas S") auto
  with Cons show ?case by (simp add: join_commas_Cons)
qed

lemma length_split_commas: "length (split_commas S) \<le> Suc (length S)"
  by (induction S) (auto split: list.splits)

lemma safe_simps: "safe (CHR '','' # r)" "safe (CHR '']'' # r)"
  by (simp_all add: safe_def)

lemma parse_elements_numbers:
  assumes "ts \<noteq> []" and "list_all json_number_token ts" and "length ts < fuel"
  shows "parse_elements fuel (join_commas ts @ CHR '']'' # rest) = Some (map token_number ts, rest)"
  using assms
proof (induction ts arbitrary: fuel)
  case Nil
  then show ?case by simp
next
  case (Cons t ts)
  from Cons.prems obtain k where fuel: "fuel = Suc (Suc k)" and k: "length ts \<le> k"
    by (cases fuel; cases "fuel - 1") auto
  from Cons.prems have t: "json_number_token t" by simp
  show ?case
  proof (cases ts)
    case Nil
    from parse_value_number [OF t safe_simps(2), of k rest]
    obtain w where "parse_value (Suc k) (t @ CHR '']'' # rest) = Some (token_number t, w @ CHR '']'' # rest)"
      and "skip_ws w = []" by blast
    moreover from this have "skip_ws (w @ CHR '']'' # rest) = CHR '']'' # rest"
      by (simp add: skip_ws_all safe_simps)
    ultimately show ?thesis using Nil fuel by simp
  next
    case (Cons u us)
    let ?tail = "join_commas (u # us) @ CHR '']'' # rest"
    from parse_value_number [OF t safe_simps(1), of k ?tail]
    obtain w where pv: "parse_value (Suc k) (t @ CHR '','' # ?tail) = Some (token_number t, w @ CHR '','' # ?tail)"
      and w: "skip_ws w = []" by blast
    from w have sk: "skip_ws (w @ CHR '','' # ?tail) = CHR '','' # ?tail"
      by (simp add: skip_ws_all safe_simps)
    from Cons.prems Cons k have "ts \<noteq> []" "list_all json_number_token ts" "length ts < Suc k"
      by simp_all
    from Cons.IH [OF this] Cons
    have "parse_elements (Suc k) ?tail = Some (map token_number (u # us), rest)" by simp
    with pv sk Cons fuel show ?thesis by simp
  qed
qed

lemma number_token_starts:
  assumes "json_number_token t"
  obtains c t' where "skip_ws (t @ r) = c # t'" and "c \<noteq> CHR '']''"
proof -
  from assms obtain lit w where s: "scan_number (skip_ws t) = Some (lit, w)"
    by (auto simp: json_number_token_def split: option.splits)
  from s obtain c t' where t': "skip_ws t = c # t'" and c: "c = CHR ''-'' \<or> is_digit c"
    by (rule scan_number_head)
  from t' have "skip_ws (t @ r) = c # t' @ r" by (simp add: skip_ws_append)
  moreover from c have "c \<noteq> CHR '']''" by (auto simp: is_digit_def)
  ultimately show thesis using that by blast
qed

lemma join_commas_head: "ts \<noteq> [] \<Longrightarrow> \<exists>r. join_commas ts = hd ts @ r"
  by (cases ts rule: join_commas.cases) simp_all

lemma JSON_parse_numbers:
  assumes "list_all json_number_token (split_commas S)"
  shows "JSON_parse (''['' @ S @ '']'') = Some (JArray (map token_number (split_commas S)))"
proof -
  let ?ts = "split_commas S"
  have ne: "?ts \<noteq> []" by (rule split_commas_nonempty)
  let ?n = "2 * length (''['' @ S @ '']'') + 1"
  have len: "length ?ts < ?n" using length_split_commas [of S] by simp
  from parse_elements_numbers [OF ne assms len, of "[]"]
  have pe: "parse_elements ?n (S @ '']'') = Some (map token_number ?ts, [])"
    by (simp add: join_split)
  from ne assms have "json_number_token (hd ?ts)" by (cases ?ts) simp_all
  moreover from join_commas_head [OF ne] obtain r where "S = hd ?ts @ r"
    by (auto simp: join_split)
  ultimately obtain c t' where sk: "skip_ws (S @ '']'') = c # t'" and c: "c \<noteq> CHR '']''"
    using number_token_starts [of "hd ?ts" "r @ '']''"] by (metis append.assoc)
  have "skip_ws (''['' @ S @ '']'') = ''['' @ S @ '']''"
    by (simp add: skip_ws_def json_ws_def)
  then have "parse_value (Suc ?n) (''['' @ S @ '']'') = Some (JArray (map token_number ?ts), [])"
    using sk c pe by simp
  moreover have "2 * length (''['' @ S @ '']'') + 2 = Suc ?n" by simp
  ultimately show ?thesis
    unfolding JSON_parse_def by (simp add: skip_ws_def)
qed

lemma parse_value_open:
  "parse_value (Suc n) (CHR ''['' # cs) =
     (case skip_ws cs of [] \<Rightarrow> None
      | d # r' \<Rightarrow> if d = CHR '']'' then Some (JArray [], r')
                 else map_option (apfst JArray) (parse_elements n cs))"
  by (simp add: skip_ws_def json_ws_def)

lemma JSON_parse_bracketed:
  assumes "JSON_parse (''['' @ s @ '']'') = Some v"
  shows "\<exists>xs. v = JArray xs"
proof -
  from assms obtain r where pv:
    "parse_value (2 * length (''['' @ s @ '']'') + 2) (''['' @ s @ '']'') = Some (v, r)"
    by (auto simp: JSON_parse_def split: option.splits if_splits)
  have "2 * length (''['' @ s @ '']'') + 2 = Suc (2 * length (''['' @ s @ '']'') + 1)"
    by simp
  with pv obtain n where "parse_value (Suc n) (CHR ''['' # s @ '']'') = Some (v, r)"
    by (auto simp del: parse_value.simps)
  then have "(case skip_ws (s @ '']'') of [] \<Rightarrow> None
      | d # r' \<Rightarrow> if d = CHR '']'' then Some (JArray [], r')
                 else map_option (apfst JArray) (parse_elements n (s @ '']''))) = Some (v, r)"
    by (simp only: parse_value_open)
  then show ?thesis
    by (cases "skip_ws (s @ '']'')")
      (auto split: if_splits simp del: parse_value.simps parse_elements.simps parse_members.simps)
qed

lemma bracketed_syntax_error:
  "(\<exists>e. bracketed s = Inl e) = (JSON_parse (''['' @ s @ '']'') = None)"
  using JSON_parse_bracketed [of s]
  by (auto simp: bracketed_def split: option.splits json.splits)

lemma bracketed_Inl:
  "bracketed s = Inl e \<Longrightarrow> e = JsonSyntaxError (''['' @ s @ '']'')"
  by (auto simp: bracketed_def split: option.splits json.splits)

section \<open>Dense vector text\<close>

lemma dense_vector_numbers:
  assumes "list_all json_number_token (split_commas S)"
  shows "dense_vector S = Inr (map token_number (split_commas S))"
  using JSON_parse_numbers [OF assms] split_commas_nonempty [of S]
  by (simp add: dense_vector_def bracketed_def)

lemma dense_vector_empty_array:
  assumes "JSON_parse (''['' @ S @ '']'') = Some (JArray [])"
  shows "dense_vector S = Inl (Text ''Vector must be a non-empty array of numbers'')"
  using assms by (simp add: dense_vector_def bracketed_def)

lemma JSON_parse_blank:
  assumes "skip_ws S = []"
  shows "JSON_parse (''['' @ S @ '']'') = Some (JArray [])"
proof -
  from assms have "skip_ws (S @ '']'') = '']''"
    using skip_ws_all [of S "'']''"] by (simp add: safe_simps)
  moreover have "2 * length (''['' @ S @ '']'') + 2 = Suc (2 * length (''['' @ S @ '']'') + 1)"
    by simp
  ultimately show ?thesis
    unfolding JSON_parse_def
    by (simp add: parse_value_open skip_ws_def del: parse_value.simps)
qed

lemma dense_vector_invalid_json:
  assumes "JSON_parse (''['' @ S @ '']'') = None"
  shows "dense_vector S = Inl (JsonSyntaxError (''['' @ S @ '']''))"
  using assms by (simp add: dense_vector_def bracketed_def)

lemma search_aborts_on_bad_vector:
  assumes "dense_vector (s_vector f) = Inl e"
  shows "search_calls (handleSearch api n h f) = []"
    and "n \<noteq> [] \<Longrightarrow> search_error (handleSearch api n h f) = Some e"
  using assms by (simp_all add: handleSearch_def searchRequest_def)

lemma parseVector_bad_vector:
  assumes "trim (in_id v) \<noteq> []" and "dense_vector (in_vector v) = Inl e"
  shows "parseVector h v = Inl (Prefixed ''Invalid vector data: '' e)"
  using assms by (simp add: parseVector_def parseVector_try_def)

text \<open>
  Claim C5, amended. The dense vector text is put between brackets and given to
  JSON.parse. A text whose tokens between commas are all number literals of JSON, white
  space allowed around each, gives the array of these numbers: its length is the number of
  tokens, which is at least one. A text of white space only, the empty text among them,
  and any text whose bracketed form parses to the empty array, fails with the message
  Vector must be a non-empty array of numbers. A text whose bracketed form is not valid
  JSON fails too, with the message of the SyntaxError that JSON.parse throws, not with
  that message. A search with such a vector text makes no call and shows the message; on
  the insert page the message comes after the prefix Invalid vector data.
\<close>

theorem dense_vector_parsing:
  "(list_all json_number_token (split_commas S) \<longrightarrow>
      dense_vector S = Inr (map token_number (split_commas S)) \<and>
      1 \<le> length (map token_number (split_commas S))) \<and>
   (skip_ws S = [] \<longrightarrow>
      dense_vector S = Inl (Text ''Vector must be a non-empty array of numbers'')) \<and>
   (JSON_parse (''['' @ S @ '']'') = Some (JArray []) \<longrightarrow>
      dense_vector S = Inl (Text ''Vector must be a non-empty array of numbers'')) \<and>
   (JSON_parse (''['' @ S @ '']'') = None \<longrightarrow>
      dense_vector S = Inl (JsonSyntaxError (''['' @ S @ '']''))) \<and>
   (dense_vector (s_vector f) = Inl e \<longrightarrow>
      search_calls (handleSearch api n h f) = [] \<and>
      (n \<noteq> [] \<longrightarrow> search_error (handleSearch api n h f) = Some e)) \<and>
   (trim (in_id v) \<noteq> [] \<and> dense_vector (in_vector v) = Inl e \<longrightarrow>
      parseVector h v = Inl (Prefixed ''Invalid vector data: '' e))"
proof (intro conjI impI)
  assume "list_all json_number_token (split_commas S)"
  then show "dense_vector S = Inr (map token_number (split_commas S))"
    by (rule dense_vector_numbers)
  show "1 \<le> length (map token_number (split_commas S))"
    using split_commas_nonempty [of S] by (cases "split_commas S") simp_all
next
  assume "skip_ws S = []"
  then show "dense_vector S = Inl (Text ''Vector must be a non-empty array of numbers'')"
    by (intro dense_vector_empty_array JSON_parse_blank)
next
  assume "JSON_parse (''['' @ S @ '']'') = Some (JArray [])"
  then show "dense_vector S = Inl (Text ''Vector must be a non-empty array of numbers'')"
    by (rule dense_vector_empty_array)
next
  assume "JSON_parse (''['' @ S @ '']'') = None"
  then show "dense_vector S = Inl (JsonSyntaxError (''['' @ S @ '']''))"
    by (rule dense_vector_invalid_json)
next
  assume "dense_vector (s_vector f) = Inl e"
  then show "search_calls (handleSearch api n h f) = []"
    by (rule search_aborts_on_bad_vector(1))
next
  assume "dense_vector (s_vector f) = Inl e" and "n \<noteq> []"
  then show "search_error (handleSearch api n h f) = Some e"
    by (intro search_aborts_on_bad_vector(2))
next
  assume "trim (in_id v) \<noteq> [] \<and> dense_vector (in_vector v) = Inl e"
  then show "parseVector h v = Inl (Prefixed ''Invalid vector data: '' e)"
    by (intro parseVector_bad_vector) simp_all
qed

theorem dense_vector_parsing_witness:
  "dense_vector ''0.1, 0.2 ,-3e5'' = Inr [JNumber ''0.1'', JNumber ''0.2'', JNumber ''-3e5''] \<and>
   dense_vector [] = Inl (Text ''Vector must be a non-empty array of numbers'') \<and>
   dense_vector ''1,,2'' = Inl (JsonSyntaxError ''[1,,2]'') \<and>
   search_calls
     (handleSearch (\<lambda>n r. \<lparr>success = True, data = Some [()], error = None\<rparr>) ''idx'' False
        \<lparr>s_vector = ''1,,2'', s_sparseIndices = [], s_sparseValues = [], s_k = ''5'',
         s_ef = [], s_filter = [], s_includeVectors = False\<rparr>) = [] \<and>
   parseVector False
     \<lparr>in_id = ''v1'', in_vector = [], in_sparse_indices = [], in_sparse_values = [],
      in_meta = [], in_filter = []\<rparr> =
     Inl (Prefixed ''Invalid vector data: ''
            (Text ''Vector must be a non-empty array of numbers''))"
proof -
  let ?api = "\<lambda>(n::string) (r::search_request). \<lparr>success = True, data = Some [()], error = None\<rparr>"
  let ?f = "\<lparr>s_vector = ''1,,2'', s_sparseIndices = [], s_sparseValues = [], s_k = ''5'',
         s_ef = [], s_filter = [], s_includeVectors = False\<rparr>"
  let ?v = "\<lparr>in_id = ''v1'', in_vector = [], in_sparse_indices = [], in_sparse_values = [],
      in_meta = [], in_filter = []\<rparr>"
  have toks: "list_all json_number_token (split_commas ''0.1, 0.2 ,-3e5'')"
    and nums: "map token_number (split_commas ''0.1, 0.2 ,-3e5'') =
                 [JNumber ''0.1'', JNumber ''0.2'', JNumber ''-3e5'']"
    and blank: "skip_ws [] = []"
    and bad: "JSON_parse (''['' @ ''1,,2'' @ '']'') = None"
    and id: "trim ''v1'' \<noteq> []"
    by code_simp+
  have a: "dense_vector ''0.1, 0.2 ,-3e5'' = Inr [JNumber ''0.1'', JNumber ''0.2'', JNumber ''-3e5'']"
    using dense_vector_parsing [where S = "''0.1, 0.2 ,-3e5''", THEN conjunct1, THEN mp, OF toks]
    by (simp only: nums)
  have b: "dense_vector [] = Inl (Text ''Vector must be a non-empty array of numbers'')"
    using dense_vector_parsing [where S = "[]", THEN conjunct2, THEN conjunct1, THEN mp, OF blank] .
  have c: "dense_vector ''1,,2'' = Inl (JsonSyntaxError ''[1,,2]'')"
    using dense_vector_parsing
      [where S = "''1,,2''", THEN conjunct2, THEN conjunct2, THEN conjunct2, THEN conjunct1,
       THEN mp, OF bad]
    by simp
  have d: "search_calls (handleSearch ?api ''idx'' False ?f) = []"
    using dense_vector_parsing
      [where f = ?f and api = ?api and n = "''idx''" and h = False
         and e = "JsonSyntaxError ''[1,,2]''",
       THEN conjunct2, THEN conjunct2, THEN conjunct2, THEN conjunct2, THEN conjunct1, THEN mp]
      c
    by simp
  have e: "parseVector False ?v =
     Inl (Prefixed ''Invalid vector data: ''
            (Text ''Vector must be a non-empty array of numbers''))"
    using dense_vector_parsing
      [where v = ?v and h = False
         and e = "Text ''Vector must be a non-empty array of numbers''",
       THEN conjunct2, THEN conjunct2, THEN conjunct2, THEN conjunct2, THEN conjunct2, THEN mp]
      b id
    by simp
  show ?thesis
    by (intro conjI a b c d e)
qed

text \<open>
  As first stated, with the one message for every failure, the property fails: the vector
  text abc is not valid JSON between brackets, and the search shows the message of the
  SyntaxError.
\<close>

theorem dense_vector_syntax_error_counterexample:
  "search_error
     (handleSearch (\<lambda>n r. \<lparr>success = True, data = Some [()], error = None\<rparr>) ''idx'' False
        \<lparr>s_vector = ''abc'', s_sparseIndices = [], s_sparseValues = [], s_k = ''5'',
         s_ef = [], s_filter = [], s_includeVectors = False\<rparr>) =
     Some (JsonSyntaxError ''[abc]'') \<and>
   search_error
     (handleSearch (\<lambda>n r. \<lparr>success = True, data = Some [()], error = None\<rparr>) ''idx'' False
        \<lparr>s_vector = ''abc'', s_sparseIndices = [], s_sparseValues = [], s_k = ''5'',
         s_ef = [], s_filter = [], s_includeVectors = False\<rparr>) \<noteq>
     Some (Text ''Vector must be a non-empty array of numbers'')"
  by code_simp

section \<open>Search: the sparse query vector\<close>

lemma search_sparse_outcome:
  assumes "n \<noteq> []" and "dense_vector (s_vector f) = Inr xs" and "k_value (s_k f) = Inr kv"
    and "filter_value (s_filter f) = Inr flt"
  shows "sparse_fields h (s_sparseIndices f) (s_sparseValues f) = Inl e \<Longrightarrow>
           search_calls (handleSearch api n h f) = [] \<and>
           search_error (handleSearch api n h f) = Some e"
    and "sparse_fields h (s_sparseIndices f) (s_sparseValues f) = Inr (si, sv) \<Longrightarrow>
           map (\<lambda>c. (rq_sparse_indices (snd c), rq_sparse_values (snd c)))
             (search_calls (handleSearch api n h f)) = [(si, sv)]"
  using assms by (simp_all add: handleSearch_def searchRequest_def Let_def)

lemma sparse_fields_cases:
  "trim i \<noteq> [] \<Longrightarrow> trim v = [] \<Longrightarrow> bracketed i = Inr a \<Longrightarrow>
     sparse_fields True i v =
       Inl (Text ''Both sparse indices and sparse values must be provided together'')"
  "trim i = [] \<Longrightarrow> trim v \<noteq> [] \<Longrightarrow> bracketed v = Inr b \<Longrightarrow>
     sparse_fields True i v =
       Inl (Text ''Both sparse indices and sparse values must be provided together'')"
  "trim i \<noteq> [] \<Longrightarrow> trim v \<noteq> [] \<Longrightarrow> bracketed i = Inr a \<Longrightarrow> bracketed v = Inr b \<Longrightarrow>
     length a \<noteq> length b \<Longrightarrow>
     sparse_fields True i v =
       Inl (Text ''Sparse indices and values must have the same length'')"
  "trim i = [] \<Longrightarrow> trim v = [] \<Longrightarrow> sparse_fields True i v = Inr (None, None)"
  "trim i \<noteq> [] \<Longrightarrow> JSON_parse (''['' @ i @ '']'') = None \<Longrightarrow>
     sparse_fields True i v = Inl (JsonSyntaxError (''['' @ i @ '']''))"
  "trim i = [] \<or> bracketed i = Inr a \<Longrightarrow> trim v \<noteq> [] \<Longrightarrow>
     JSON_parse (''['' @ v @ '']'') = None \<Longrightarrow>
     sparse_fields True i v = Inl (JsonSyntaxError (''['' @ v @ '']''))"
  by (auto simp add: sparse_fields_def sparse_field_def sparse_check_def bracketed_def
      split: option.splits)

text \<open>
  Claim C4, amended. On a search of a hybrid index whose vector, k and filter fields are
  valid: when one of the two sparse texts is blank and the other, between brackets, is
  valid JSON, the search fails with Both sparse indices and sparse values must be provided
  together; when neither is blank, both are valid and the two arrays differ in length, it
  fails with Sparse indices and values must have the same length; when a text that is not
  blank is not valid JSON between brackets, it fails with the message of the SyntaxError
  of JSON.parse, the indices being read first; in each of these failures the adapter is
  not called. When both texts are blank the adapter is called with a request that has
  neither sparse field.
\<close>

theorem sparse_pair_validation:
  assumes "n \<noteq> []" and "dense_vector (s_vector f) = Inr xs" and "k_value (s_k f) = Inr kv"
    and "filter_value (s_filter f) = Inr flt"
  shows
    "((trim (s_sparseIndices f) \<noteq> [] \<and> trim (s_sparseValues f) = [] \<and>
         bracketed (s_sparseIndices f) = Inr a \<or>
       trim (s_sparseIndices f) = [] \<and> trim (s_sparseValues f) \<noteq> [] \<and>
         bracketed (s_sparseValues f) = Inr b) \<longrightarrow>
        search_calls (handleSearch api n True f) = [] \<and>
        search_error (handleSearch api n True f) =
          Some (Text ''Both sparse indices and sparse values must be provided together'')) \<and>
     (trim (s_sparseIndices f) \<noteq> [] \<and> trim (s_sparseValues f) \<noteq> [] \<and>
        bracketed (s_sparseIndices f) = Inr a \<and> bracketed (s_sparseValues f) = Inr b \<and>
        length a \<noteq> length b \<longrightarrow>
        search_calls (handleSearch api n True f) = [] \<and>
        search_error (handleSearch api n True f) =
          Some (Text ''Sparse indices and values must have the same length'')) \<and>
     (trim (s_sparseIndices f) = [] \<and> trim (s_sparseValues f) = [] \<longrightarrow>
        map (\<lambda>c. (rq_sparse_indices (snd c), rq_sparse_values (snd c)))
          (search_calls (handleSearch api n True f)) = [(None, None)]) \<and>
     (trim (s_sparseIndices f) \<noteq> [] \<and>
        JSON_parse (''['' @ s_sparseIndices f @ '']'') = None \<longrightarrow>
        search_calls (handleSearch api n True f) = [] \<and>
        search_error (handleSearch api n True f) =
          Some (JsonSyntaxError (''['' @ s_sparseIndices f @ '']''))) \<and>
     ((trim (s_sparseIndices f) = [] \<or> bracketed (s_sparseIndices f) = Inr a) \<and>
        trim (s_sparseValues f) \<noteq> [] \<and>
        JSON_parse (''['' @ s_sparseValues f @ '']'') = None \<longrightarrow>
        search_calls (handleSearch api n True f) = [] \<and>
        search_error (handleSearch api n True f) =
          Some (JsonSyntaxError (''['' @ s_sparseValues f @ '']'')))"
proof -
  note fails = search_sparse_outcome(1) [OF assms, where h = True and api = api]
  note goes = search_sparse_outcome(2) [OF assms, where h = True and api = api]
  show ?thesis
  proof (intro conjI impI)
    assume "trim (s_sparseIndices f) \<noteq> [] \<and> trim (s_sparseValues f) = [] \<and>
         bracketed (s_sparseIndices f) = Inr a \<or>
       trim (s_sparseIndices f) = [] \<and> trim (s_sparseValues f) \<noteq> [] \<and>
         bracketed (s_sparseValues f) = Inr b"
    then have "sparse_fields True (s_sparseIndices f) (s_sparseValues f) =
        Inl (Text ''Both sparse indices and sparse values must be provided together'')"
      using sparse_fields_cases(1,2) by blast
    from fails [OF this]
    show "search_calls (handleSearch api n True f) = []"
      and "search_error (handleSearch api n True f) =
          Some (Text ''Both sparse indices and sparse values must be provided together'')"
      by simp_all
  next
    assume "trim (s_sparseIndices f) \<noteq> [] \<and> trim (s_sparseValues f) \<noteq> [] \<and>
        bracketed (s_sparseIndices f) = Inr a \<and> bracketed (s_sparseValues f) = Inr b \<and>
        length a \<noteq> length b"
    then have "sparse_fields True (s_sparseIndices f) (s_sparseValues f) =
        Inl (Text ''Sparse indices and values must have the same length'')"
      using sparse_fields_cases(3) by blast
    from fails [OF this]
    show "search_calls (handleSearch api n True f) = []"
      and "search_error (handleSearch api n True f) =
          Some (Text ''Sparse indices and values must have the same length'')"
      by simp_all
  next
    assume "trim (s_sparseIndices f) = [] \<and> trim (s_sparseValues f) = []"
    then have "sparse_fields True (s_sparseIndices f) (s_sparseValues f) = Inr (None, None)"
      using sparse_fields_cases(4) by blast
    from goes [OF this]
    show "map (\<lambda>c. (rq_sparse_indices (snd c), rq_sparse_values (snd c)))
          (search_calls (handleSearch api n True f)) = [(None, None)]" .
  next
    assume "trim (s_sparseIndices f) \<noteq> [] \<and>
        JSON_parse (''['' @ s_sparseIndices f @ '']'') = None"
    then have "sparse_fields True (s_sparseIndices f) (s_sparseValues f) =
        Inl (JsonSyntaxError (''['' @ s_sparseIndices f @ '']''))"
      using sparse_fields_cases(5) by blast
    from fails [OF this]
    show "search_calls (handleSearch api n True f) = []"
      and "search_error (handleSearch api n True f) =
          Some (JsonSyntaxError (''['' @ s_sparseIndices f @ '']''))"
      by simp_all
  next
    assume "(trim (s_sparseIndices f) = [] \<or> bracketed (s_sparseIndices f) = Inr a) \<and>
        trim (s_sparseValues f) \<noteq> [] \<and>
        JSON_parse (''['' @ s_sparseValues f @ '']'') = None"
    then have "sparse_fields True (s_sparseIndices f) (s_sparseValues f) =
        Inl (JsonSyntaxError (''['' @ s_sparseValues f @ '']''))"
      using sparse_fields_cases(6) by blast
    from fails [OF this]
    show "search_calls (handleSearch api n True f) = []"
      and "search_error (handleSearch api n True f) =
          Some (JsonSyntaxError (''['' @ s_sparseValues f @ '']''))"
      by simp_all
  qed
qed

theorem sparse_pair_validation_witness:
  "search_error
     (handleSearch (\<lambda>n r. \<lparr>success = True, data = Some [()], error = None\<rparr>) ''idx'' True
        \<lparr>s_vector = ''0.1, 0.2'', s_sparseIndices = ''10, 50'', s_sparseValues = [],
         s_k = ''5'', s_ef = [], s_filter = [], s_includeVectors = False\<rparr>) =
     Some (Text ''Both sparse indices and sparse values must be provided together'') \<and>
   search_error
     (handleSearch (\<lambda>n r. \<lparr>success = True, data = Some [()], error = None\<rparr>) ''idx'' True
        \<lparr>s_vector = ''0.1, 0.2'', s_sparseIndices = ''10, 50'', s_sparseValues = ''0.8'',
         s_k = ''5'', s_ef = [], s_filter = [], s_includeVectors = False\<rparr>) =
     Some (Text ''Sparse indices and values must have the same length'') \<and>
   map (\<lambda>c. (rq_sparse_indices (snd c), rq_sparse_values (snd c)))
     (search_calls
        (handleSearch (\<lambda>n r. \<lparr>success = True, data = Some [()], error = None\<rparr>) ''idx'' True
           \<lparr>s_vector = ''0.1, 0.2'', s_sparseIndices = [], s_sparseValues = [],
            s_k = ''5'', s_ef = [], s_filter = [], s_includeVectors = False\<rparr>)) =
     [(None, None)] \<and>
   search_calls
     (handleSearch (\<lambda>n r. \<lparr>success = True, data = Some [()], error = None\<rparr>) ''idx'' True
        \<lparr>s_vector = ''0.1, 0.2'', s_sparseIndices = ''10, 50'', s_sparseValues = ''0.8 0.5'',
         s_k = ''5'', s_ef = [], s_filter = [], s_includeVectors = False\<rparr>) = []"
proof -
  let ?api = "\<lambda>(n::string) (r::search_request). \<lparr>success = True, data = Some [()], error = None\<rparr>"
  let ?f1 = "\<lparr>s_vector = ''0.1, 0.2'', s_sparseIndices = ''10, 50'', s_sparseValues = [],
         s_k = ''5'', s_ef = [], s_filter = [], s_includeVectors = False\<rparr>"
  let ?f2 = "\<lparr>s_vector = ''0.1, 0.2'', s_sparseIndices = ''10, 50'', s_sparseValues = ''0.8'',
         s_k = ''5'', s_ef = [], s_filter = [], s_includeVectors = False\<rparr>"
  let ?f3 = "\<lparr>s_vector = ''0.1, 0.2'', s_sparseIndices = [], s_sparseValues = [],
            s_k = ''5'', s_ef = [], s_filter = [], s_includeVectors = False\<rparr>"
  let ?f4 = "\<lparr>s_vector = ''0.1, 0.2'', s_sparseIndices = ''10, 50'', s_sparseValues = ''0.8 0.5'',
         s_k = ''5'', s_ef = [], s_filter = [], s_includeVectors = False\<rparr>"
  have n: "''idx'' \<noteq> []" by simp
  have dense: "dense_vector ''0.1, 0.2'' = Inr [JNumber ''0.1'', JNumber ''0.2'']"
    and k: "k_value ''5'' = Inr (Some 5)"
    and flt: "filter_value [] = Inr None"
    and i: "trim ''10, 50'' \<noteq> []" "bracketed ''10, 50'' = Inr [JNumber ''10'', JNumber ''50'']"
    and v: "trim ''0.8'' \<noteq> []" "bracketed ''0.8'' = Inr [JNumber ''0.8'']"
    and e: "trim [] = []"
    and w: "trim ''0.8 0.5'' \<noteq> []" "JSON_parse ''[0.8 0.5]'' = None"
    by code_simp+
  note t = sparse_pair_validation [OF n, where api = ?api and xs = "[JNumber ''0.1'', JNumber ''0.2'']"
      and kv = "Some 5" and flt = None]
  have a: "search_error (handleSearch ?api ''idx'' True ?f1) =
     Some (Text ''Both sparse indices and sparse values must be provided together'')"
    using t [where f = ?f1 and a = "[JNumber ''10'', JNumber ''50'']", THEN conjunct1, THEN mp]
    by (simp add: dense k flt i e)
  have b: "search_error (handleSearch ?api ''idx'' True ?f2) =
     Some (Text ''Sparse indices and values must have the same length'')"
    using t [where f = ?f2 and a = "[JNumber ''10'', JNumber ''50'']" and b = "[JNumber ''0.8'']",
        THEN conjunct2, THEN conjunct1, THEN mp]
    by (simp add: dense k flt i v)
  have c: "map (\<lambda>c. (rq_sparse_indices (snd c), rq_sparse_values (snd c)))
     (search_calls (handleSearch ?api ''idx'' True ?f3)) = [(None, None)]"
    using t [where f = ?f3, THEN conjunct2, THEN conjunct2, THEN conjunct1, THEN mp]
    by (simp add: dense k flt e)
  have d: "search_calls (handleSearch ?api ''idx'' True ?f4) = []"
    using t [where f = ?f4 and a = "[JNumber ''10'', JNumber ''50'']",
        THEN conjunct2, THEN conjunct2, THEN conjunct2, THEN conjunct2, THEN mp]
    by (simp add: dense k flt i w)
  show ?thesis
    by (intro conjI a b c d)
qed

text \<open>
  As first stated, with the message about both fields for every single text that is not
  blank, the property fails: with the sparse indices abc and no sparse values the search
  shows the message of the SyntaxError.
\<close>

theorem sparse_single_unparsable_counterexample:
  "search_error
     (handleSearch (\<lambda>n r. \<lparr>success = True, data = Some [()], error = None\<rparr>) ''idx'' True
        \<lparr>s_vector = ''0.1, 0.2'', s_sparseIndices = ''abc'', s_sparseValues = [],
         s_k = ''5'', s_ef = [], s_filter = [], s_includeVectors = False\<rparr>) =
     Some (JsonSyntaxError ''[abc]'') \<and>
   search_error
     (handleSearch (\<lambda>n r. \<lparr>success = True, data = Some [()], error = None\<rparr>) ''idx'' True
        \<lparr>s_vector = ''0.1, 0.2'', s_sparseIndices = ''abc'', s_sparseValues = [],
         s_k = ''5'', s_ef = [], s_filter = [], s_includeVectors = False\<rparr>) \<noteq>
     Some (Text ''Both sparse indices and sparse values must be provided together'')"
  by code_simp

section \<open>Vector insert: placeholder rows and rows that fail\<close>

lemma parseVector_Inl:
  assumes "parseVector h v = Inl e"
  obtains e' where "e = Prefixed ''Invalid vector data: '' e'"
  using assms by (auto simp: parseVector_def split: sum.splits)

lemma parse_loop_Inr:
  assumes "parse_loop h rows = Inr parsed"
  shows "map Inr parsed = map (parseVector h) rows"
  using assms
  by (induction rows arbitrary: parsed) (auto split: sum.splits)

lemma parse_loop_Inl:
  assumes "parse_loop h rows = Inl e"
  shows "\<exists>e'. e = Prefixed ''Invalid vector data: '' e'"
  using assms
proof (induction rows)
  case Nil
  then show ?case by simp
next
  case (Cons v rows)
  then show ?case
    by (auto split: sum.splits elim: parseVector_Inl)
qed

lemma parse_loop_first_failure:
  assumes "list_all (parses h) pre" and "parseVector h v = Inl e"
  shows "parse_loop h (pre @ v # post) = Inl e"
  using assms
  by (induction pre) (auto simp: parses_def split: sum.splits)

lemma parse_loop_some_failure:
  assumes "v \<in> set rows" and "\<not> parses h v"
  shows "\<exists>e. parse_loop h rows = Inl e"
  using assms
  by (induction rows) (auto simp: parses_def split: sum.splits)

lemma filter_placeholders_first_failure:
  assumes "list_all (\<lambda>p. is_placeholder p \<or> parses h p) pre" and "\<not> is_placeholder v"
  shows "\<exists>pre' post'. filter (\<lambda>v. \<not> is_placeholder v) (pre @ v # post) = pre' @ v # post' \<and>
           list_all (parses h) pre'"
  using assms
  by (intro exI [of _ "filter (\<lambda>v. \<not> is_placeholder v) pre"]
            exI [of _ "filter (\<lambda>v. \<not> is_placeholder v) post"])
     (auto simp: list_all_iff)

lemma parsedVectors_first_failure:
  assumes "list_all (\<lambda>p. is_placeholder p \<or> parses h p) pre" and "\<not> is_placeholder v"
    and "parseVector h v = Inl e"
  shows "parsedVectors h (pre @ v # post) = Inl e"
proof -
  from filter_placeholders_first_failure [OF assms(1,2), of post]
  obtain pre' post' where f: "filter (\<lambda>v. \<not> is_placeholder v) (pre @ v # post) = pre' @ v # post'"
    and ok: "list_all (parses h) pre'" by blast
  from parse_loop_first_failure [OF ok assms(3)] f
  show ?thesis by (simp add: parsedVectors_def Let_def del: filter_append filter.simps)
qed

lemma parsedVectors_filter:
  "parsedVectors h rows = parsedVectors h (filter (\<lambda>v. \<not> is_placeholder v) rows)"
  by (simp add: parsedVectors_def)

lemma parsedVectors_all_placeholders:
  assumes "list_all is_placeholder rows"
  shows "parsedVectors h rows = Inl (Text ''At least one vector is required'')"
proof -
  from assms have "filter (\<lambda>v. \<not> is_placeholder v) rows = []"
    by (simp add: list_all_iff filter_empty_conv)
  then show ?thesis by (simp add: parsedVectors_def)
qed

lemma parsedVectors_Inr:
  assumes "parsedVectors h rows = Inr parsed"
  shows "map Inr parsed = map (parseVector h) (filter (\<lambda>v. \<not> is_placeholder v) rows)"
  using assms
  by (auto simp: parsedVectors_def Let_def parse_loop_Inr split: if_splits sum.splits)

lemma parsedVectors_Inl:
  assumes "parsedVectors h rows = Inl e"
  shows "e = Text ''At least one vector is required'' \<and> list_all is_placeholder rows \<or>
         (\<exists>e'. e = Prefixed ''Invalid vector data: '' e') \<and> \<not> list_all is_placeholder rows"
proof (cases "filter (\<lambda>v. \<not> is_placeholder v) rows = []")
  case True
  then have "list_all is_placeholder rows"
    by (simp add: list_all_iff filter_empty_conv)
  with assms True show ?thesis by (simp add: parsedVectors_def)
next
  case False
  then have np: "\<not> list_all is_placeholder rows"
    by (auto simp add: list_all_iff filter_empty_conv)
  show ?thesis
  proof (cases "parse_loop h (filter (\<lambda>v. \<not> is_placeholder v) rows)")
    case (Inl e0)
    with assms False have "e = e0" by (simp add: parsedVectors_def)
    with parse_loop_Inl [OF Inl] np show ?thesis by simp
  next
    case (Inr parsed)
    from parse_loop_Inr [OF Inr] False have "parsed \<noteq> []" by auto
    with assms False Inr show ?thesis by (simp add: parsedVectors_def)
  qed
qed

lemma handleSubmit_aborts:
  assumes "parsedVectors h rows = Inl e"
  shows "insert_calls (fst (handleSubmit api n h rows)) = []"
    and "n \<noteq> [] \<Longrightarrow> insert_error (fst (handleSubmit api n h rows)) = Some e"
    and "snd (handleSubmit api n h rows) = rows"
  using assms by (simp_all add: handleSubmit_def)

lemma bad_json_field_fails:
  assumes "trim (in_meta v) \<noteq> [] \<and> JSON_parse (in_meta v) = None \<or>
           trim (in_filter v) \<noteq> [] \<and> JSON_parse (in_filter v) = None"
  shows "\<not> parses h v"
  using assms
  by (auto simp: parses_def parseVector_def parseVector_try_def json_field_def
      split: sum.splits)

lemma parsedVectors_some_failure:
  assumes "v \<in> set rows" and "\<not> is_placeholder v" and "\<not> parses h v"
  shows "\<exists>e. parsedVectors h rows = Inl (Prefixed ''Invalid vector data: '' e)"
proof -
  let ?rows = "filter (\<lambda>v. \<not> is_placeholder v) rows"
  from assms(1,2) have v: "v \<in> set ?rows" by simp
  then have ne: "?rows \<noteq> []" by (metis empty_iff empty_set)
  from parse_loop_some_failure [OF v assms(3)] obtain e where e: "parse_loop h ?rows = Inl e"
    by blast
  from parse_loop_Inl [OF e] obtain e' where "e = Prefixed ''Invalid vector data: '' e'"
    by blast
  with e ne show ?thesis by (simp add: parsedVectors_def)
qed

text \<open>
  Claim C3, amended. A row whose id and vector texts are both empty after trimming is left
  out before any parsing: the batch is read as if the row were not there, and what is sent
  is the list of the parsed rows that are not placeholders. A batch of placeholders only
  fails with At least one vector is required. A batch with a row that is not a placeholder
  fails, when it fails, with Invalid vector data followed by the message of the first row
  that does not parse. In both failures the adapter is not called. No batch fails with At
  least one valid vector is required.
\<close>

theorem placeholder_rows_and_empty_batches:
  "parsedVectors h rows = parsedVectors h (filter (\<lambda>v. \<not> is_placeholder v) rows) \<and>
   (parsedVectors h rows = Inr parsed \<longrightarrow>
      map Inr parsed = map (parseVector h) (filter (\<lambda>v. \<not> is_placeholder v) rows)) \<and>
   (list_all is_placeholder rows \<longrightarrow>
      parsedVectors h rows = Inl (Text ''At least one vector is required'')) \<and>
   (\<not> list_all is_placeholder rows \<and> parsedVectors h rows = Inl e \<longrightarrow>
      (\<exists>e'. e = Prefixed ''Invalid vector data: '' e')) \<and>
   (parsedVectors h rows = Inl e \<longrightarrow>
      insert_calls (fst (handleSubmit api n h rows)) = [] \<and>
      (n \<noteq> [] \<longrightarrow> insert_error (fst (handleSubmit api n h rows)) = Some e)) \<and>
   parsedVectors h rows \<noteq> Inl (Text ''At least one valid vector is required'')"
proof (intro conjI impI)
  show "parsedVectors h rows = parsedVectors h (filter (\<lambda>v. \<not> is_placeholder v) rows)"
    by (rule parsedVectors_filter)
  show "parsedVectors h rows \<noteq> Inl (Text ''At least one valid vector is required'')"
    using parsedVectors_Inl [of h rows "Text ''At least one valid vector is required''"]
    by auto
next
  assume "parsedVectors h rows = Inr parsed"
  then show "map Inr parsed = map (parseVector h) (filter (\<lambda>v. \<not> is_placeholder v) rows)"
    by (rule parsedVectors_Inr)
next
  assume "list_all is_placeholder rows"
  then show "parsedVectors h rows = Inl (Text ''At least one vector is required'')"
    by (rule parsedVectors_all_placeholders)
next
  assume "\<not> list_all is_placeholder rows \<and> parsedVectors h rows = Inl e"
  then show "\<exists>e'. e = Prefixed ''Invalid vector data: '' e'"
    using parsedVectors_Inl [of h rows e] by auto
next
  assume "parsedVectors h rows = Inl e"
  then show "insert_calls (fst (handleSubmit api n h rows)) = []"
    by (rule handleSubmit_aborts(1))
next
  assume "parsedVectors h rows = Inl e" and "n \<noteq> []"
  then show "insert_error (fst (handleSubmit api n h rows)) = Some e"
    by (intro handleSubmit_aborts(2))
qed

theorem placeholder_rows_and_empty_batches_witness:
  "parsedVectors False
     [empty_row,
      \<lparr>in_id = ''v1'', in_vector = ''0.1, 0.2'', in_sparse_indices = [],
       in_sparse_values = [], in_meta = [], in_filter = []\<rparr>] =
     Inr [\<lparr>item_id = ''v1'', item_vector = [JNumber ''0.1'', JNumber ''0.2''],
           item_sparseIndices = None, item_sparseValues = None,
           item_meta = None, item_filter = None\<rparr>] \<and>
   parsedVectors False [empty_row, empty_row] =
     Inl (Text ''At least one vector is required'') \<and>
   insert_calls
     (fst (handleSubmit
        (\<lambda>n vs. \<lparr>success = True, data = None, error = None\<rparr>) ''idx'' False
        [empty_row, empty_row])) = [] \<and>
   insert_error
     (fst (handleSubmit
        (\<lambda>n vs. \<lparr>success = True, data = None, error = None\<rparr>) ''idx'' False
        [empty_row, empty_row])) = Some (Text ''At least one vector is required'')"
proof -
  let ?api = "\<lambda>(n::string) (vs::vector_item list).
                \<lparr>success = True, data = None::insert_data option, error = None\<rparr>"
  let ?good = "\<lparr>in_id = ''v1'', in_vector = ''0.1, 0.2'', in_sparse_indices = [],
       in_sparse_values = [], in_meta = [], in_filter = []\<rparr>"
  have ph: "is_placeholder empty_row" and np: "\<not> is_placeholder ?good"
    by code_simp+
  have good: "parsedVectors False [?good] =
     Inr [\<lparr>item_id = ''v1'', item_vector = [JNumber ''0.1'', JNumber ''0.2''],
           item_sparseIndices = None, item_sparseValues = None,
           item_meta = None, item_filter = None\<rparr>]"
    by code_simp
  have a: "parsedVectors False [empty_row, ?good] =
     Inr [\<lparr>item_id = ''v1'', item_vector = [JNumber ''0.1'', JNumber ''0.2''],
           item_sparseIndices = None, item_sparseValues = None,
           item_meta = None, item_filter = None\<rparr>]"
    using placeholder_rows_and_empty_batches
      [where h = False and rows = "[empty_row, ?good]", THEN conjunct1]
    by (simp add: ph np good)
  note t = placeholder_rows_and_empty_batches
    [where h = False and rows = "[empty_row, empty_row]" and api = ?api and n = "''idx''"
       and e = "Text ''At least one vector is required''"]
  have b: "parsedVectors False [empty_row, empty_row] =
     Inl (Text ''At least one vector is required'')"
    using t [THEN conjunct2, THEN conjunct2, THEN conjunct1, THEN mp]
    by (simp add: ph)
  have c: "insert_calls (fst (handleSubmit ?api ''idx'' False [empty_row, empty_row])) = [] \<and>
      insert_error (fst (handleSubmit ?api ''idx'' False [empty_row, empty_row])) =
        Some (Text ''At least one vector is required'')"
    using t [THEN conjunct2, THEN conjunct2, THEN conjunct2, THEN conjunct2, THEN conjunct1,
        THEN mp, OF b]
    by simp
  show ?thesis
    by (intro conjI a b c [THEN conjunct1] c [THEN conjunct2])
qed

text \<open>
  As first stated, with the message At least one valid vector is required, the property
  fails: a batch of one placeholder row fails with At least one vector is required, and a
  batch of one row with an id and no vector fails with Invalid vector data.
\<close>

theorem empty_batch_message_counterexample:
  "insert_error
     (fst (handleSubmit
        (\<lambda>n vs. \<lparr>success = True, data = None, error = None\<rparr>) ''idx'' False
        [empty_row])) = Some (Text ''At least one vector is required'') \<and>
   insert_error
     (fst (handleSubmit
        (\<lambda>n vs. \<lparr>success = True, data = None, error = None\<rparr>) ''idx'' False
        [empty_row])) \<noteq> Some (Text ''At least one valid vector is required'') \<and>
   insert_error
     (fst (handleSubmit
        (\<lambda>n vs. \<lparr>success = True, data = None, error = None\<rparr>) ''idx'' False
        [\<lparr>in_id = ''v1'', in_vector = [], in_sparse_indices = [], in_sparse_values = [],
          in_meta = [], in_filter = []\<rparr>])) =
     Some (Prefixed ''Invalid vector data: ''
             (Text ''Vector must be a non-empty array of numbers''))"
  by code_simp

text \<open>
  Claim C2, amended. When a row that is not a placeholder has a metadata or filter text
  that is not blank and is not valid JSON, the batch fails with Invalid vector data
  followed by a message, and the adapter is not called. The message is the one of the
  first row that does not parse, and it is the message this row gives alone: the position
  of the row in the batch is no part of it.
\<close>

theorem bad_json_field_aborts_batch:
  "(v \<in> set rows \<and> \<not> is_placeholder v \<and>
      (trim (in_meta v) \<noteq> [] \<and> JSON_parse (in_meta v) = None \<or>
       trim (in_filter v) \<noteq> [] \<and> JSON_parse (in_filter v) = None) \<longrightarrow>
      (\<exists>e. parsedVectors h rows = Inl (Prefixed ''Invalid vector data: '' e) \<and>
           insert_calls (fst (handleSubmit api n h rows)) = [])) \<and>
   (list_all (\<lambda>p. is_placeholder p \<or> parses h p) pre \<and> \<not> is_placeholder v \<and>
      parseVector h v = Inl e \<longrightarrow>
      parsedVectors h (pre @ v # post) = Inl e \<and> parsedVectors h [v] = Inl e)"
proof (intro conjI impI)
  assume a: "v \<in> set rows \<and> \<not> is_placeholder v \<and>
      (trim (in_meta v) \<noteq> [] \<and> JSON_parse (in_meta v) = None \<or>
       trim (in_filter v) \<noteq> [] \<and> JSON_parse (in_filter v) = None)"
  then have "\<not> parses h v"
    by (intro bad_json_field_fails) simp
  with a obtain e where e: "parsedVectors h rows = Inl (Prefixed ''Invalid vector data: '' e)"
    using parsedVectors_some_failure [of v rows h] by blast
  from handleSubmit_aborts(1) [OF e] e
  show "\<exists>e. parsedVectors h rows = Inl (Prefixed ''Invalid vector data: '' e) \<and>
           insert_calls (fst (handleSubmit api n h rows)) = []"
    by blast
next
  assume a: "list_all (\<lambda>p. is_placeholder p \<or> parses h p) pre \<and> \<not> is_placeholder v \<and>
      parseVector h v = Inl e"
  then show "parsedVectors h (pre @ v # post) = Inl e"
    by (intro parsedVectors_first_failure) simp_all
  from a show "parsedVectors h [v] = Inl e"
    using parsedVectors_first_failure [of h "[]" v e "[]"] by simp
qed

theorem bad_json_field_aborts_batch_witness:
  "parsedVectors False
     [\<lparr>in_id = ''v1'', in_vector = ''0.1, 0.2'', in_sparse_indices = [],
       in_sparse_values = [], in_meta = [], in_filter = []\<rparr>,
      \<lparr>in_id = ''v2'', in_vector = ''0.3, 0.4'', in_sparse_indices = [],
       in_sparse_values = [], in_meta = ''{bad'', in_filter = []\<rparr>] =
     Inl (Prefixed ''Invalid vector data: '' (JsonSyntaxError ''{bad'')) \<and>
   insert_calls
     (fst (handleSubmit (\<lambda>n vs. \<lparr>success = True, data = None, error = None\<rparr>) ''idx'' False
        [\<lparr>in_id = ''v1'', in_vector = ''0.1, 0.2'', in_sparse_indices = [],
          in_sparse_values = [], in_meta = [], in_filter = []\<rparr>,
         \<lparr>in_id = ''v2'', in_vector = ''0.3, 0.4'', in_sparse_indices = [],
          in_sparse_values = [], in_meta = ''{bad'', in_filter = []\<rparr>])) = []"
proof -
  let ?api = "\<lambda>(n::string) (vs::vector_item list).
                \<lparr>success = True, data = None::insert_data option, error = None\<rparr>"
  let ?good = "\<lparr>in_id = ''v1'', in_vector = ''0.1, 0.2'', in_sparse_indices = [],
       in_sparse_values = [], in_meta = [], in_filter = []\<rparr>"
  let ?bad = "\<lparr>in_id = ''v2'', in_vector = ''0.3, 0.4'', in_sparse_indices = [],
       in_sparse_values = [], in_meta = ''{bad'', in_filter = []\<rparr>"
  have np: "\<not> is_placeholder ?bad" and ok: "parses False ?good"
    and meta: "trim ''{bad'' \<noteq> []" "JSON_parse ''{bad'' = None"
    and bad: "parseVector False ?bad =
                Inl (Prefixed ''Invalid vector data: '' (JsonSyntaxError ''{bad''))"
    by code_simp+
  note t = bad_json_field_aborts_batch
    [where h = False and v = ?bad and rows = "[?good, ?bad]" and api = ?api and n = "''idx''"
       and pre = "[?good]" and post = "[]"
       and e = "Prefixed ''Invalid vector data: '' (JsonSyntaxError ''{bad'')"]
  have a: "parsedVectors False [?good, ?bad] =
     Inl (Prefixed ''Invalid vector data: '' (JsonSyntaxError ''{bad''))"
    using t [THEN conjunct2, THEN mp] by (simp add: np ok bad)
  have "\<exists>e. parsedVectors False [?good, ?bad] = Inl (Prefixed ''Invalid vector data: '' e) \<and>
          insert_calls (fst (handleSubmit ?api ''idx'' False [?good, ?bad])) = []"
    using t [THEN conjunct1, THEN mp] by (simp add: np meta)
  then have b: "insert_calls (fst (handleSubmit ?api ''idx'' False [?good, ?bad])) = []"
    by blast
  show ?thesis
    by (intro conjI a b)
qed

text \<open>
  As first stated, with an error that names the position of the failing row, the property
  fails: the same row gives the same error alone and after a valid row. And a placeholder
  row is left out with its metadata unread, so that the batch is sent.
\<close>

theorem error_names_no_index_counterexample:
  "parsedVectors False
     [\<lparr>in_id = ''v2'', in_vector = ''0.3, 0.4'', in_sparse_indices = [],
       in_sparse_values = [], in_meta = ''{bad'', in_filter = []\<rparr>] =
     Inl (Prefixed ''Invalid vector data: '' (JsonSyntaxError ''{bad'')) \<and>
   parsedVectors False
     [\<lparr>in_id = ''v1'', in_vector = ''0.1, 0.2'', in_sparse_indices = [],
       in_sparse_values = [], in_meta = [], in_filter = []\<rparr>,
      \<lparr>in_id = ''v2'', in_vector = ''0.3, 0.4'', in_sparse_indices = [],
       in_sparse_values = [], in_meta = ''{bad'', in_filter = []\<rparr>] =
     Inl (Prefixed ''Invalid vector data: '' (JsonSyntaxError ''{bad'')) \<and>
   insert_calls
     (fst (handleSubmit (\<lambda>n vs. \<lparr>success = True, data = None, error = None\<rparr>) ''idx'' False
        [\<lparr>in_id = ''v1'', in_vector = ''0.1, 0.2'', in_sparse_indices = [],
          in_sparse_values = [], in_meta = [], in_filter = []\<rparr>,
         \<lparr>in_id = [], in_vector = [], in_sparse_indices = [],
          in_sparse_values = [], in_meta = ''{bad'', in_filter = []\<rparr>])) =
     [(''idx'', [\<lparr>item_id = ''v1'', item_vector = [JNumber ''0.1'', JNumber ''0.2''],
                  item_sparseIndices = None, item_sparseValues = None,
                  item_meta = None, item_filter = None\<rparr>])]"
  by code_simp

end
